theory Spec2Isabelle
  imports Complex_Main
begin

section \<open>Python values\<close>

text \<open>
  The values \<open>response.json()\<close> can return: \<open>None\<close>, booleans, integers, floats,
  strings, lists and dictionaries. A dictionary is the list of its items in insertion
  order; \<open>map_of\<close> is the lookup. The value of a float plays no part in the program, it
  is carried as a rational.
\<close>

datatype json =
    JNull
  | JBool bool
  | JInt int
  | JFloat rat
  | JStr string
  | JArr "json list"
  | JObj "(string \<times> json) list"

text \<open>
  The exceptions the program can meet. \<open>RequestException\<close> stands for
  \<open>requests.exceptions.RequestException\<close> and its subclasses, \<open>DatabaseError\<close> for
  \<open>psycopg2.Error\<close> and its subclasses, \<open>OtherError\<close> for any other subclass of
  \<open>Exception\<close> that a library call may raise.
\<close>

datatype py_exc =
    AttributeError
  | TypeError
  | ValueError
  | UnboundLocalError
  | RequestException
  | DatabaseError
  | OtherError

text \<open>
  A record of the log file: \<open>INFO m\<close> is \<open>logging.info(m)\<close>;
  \<open>ERROR_EXC m e\<close> is \<open>logging.error\<close> of the text \<open>m\<close> followed
  by \<open>str(e)\<close>.
\<close>

datatype log_record =
    INFO string
  | ERROR_EXC string py_exc

text \<open>Truth value of a Python object, as \<open>if x:\<close> and \<open>a and b\<close> test it.\<close>

fun truthy :: "json \<Rightarrow> bool" where
  "truthy JNull = False"
| "truthy (JBool b) = b"
| "truthy (JInt n) = (n \<noteq> 0)"
| "truthy (JFloat q) = (q \<noteq> 0)"
| "truthy (JStr s) = (s \<noteq> [])"
| "truthy (JArr xs) = (xs \<noteq> [])"
| "truthy (JObj kvs) = (kvs \<noteq> [])"

text \<open>
  \<open>x.get\<close>: only a dictionary has the attribute; on every other value the attribute
  lookup raises \<open>AttributeError\<close>.
\<close>

fun as_dict :: "json \<Rightarrow> py_exc + (string \<times> json) list" where
  "as_dict (JObj kvs) = Inr kvs"
| "as_dict _ = Inl AttributeError"

text \<open>\<open>d.get(k)\<close> and \<open>d.get(k, default)\<close> on a dictionary.\<close>

definition get_or :: "(string \<times> json) list \<Rightarrow> string \<Rightarrow> json \<Rightarrow> json" where
  "get_or d k dflt = (case map_of d k of None \<Rightarrow> dflt | Some v \<Rightarrow> v)"

definition get :: "(string \<times> json) list \<Rightarrow> string \<Rightarrow> json" where
  "get d k = get_or d k JNull"

text \<open>
  \<open>for x in v\<close>: a list yields its elements, a dictionary its keys, a string its
  characters; the other values are not iterable and raise \<open>TypeError\<close>.
\<close>

fun py_iter :: "json \<Rightarrow> py_exc + json list" where
  "py_iter (JArr xs) = Inr xs"
| "py_iter (JObj kvs) = Inr (map (\<lambda>kv. JStr (fst kv)) kvs)"
| "py_iter (JStr s) = Inr (map (\<lambda>c. JStr [c]) s)"
| "py_iter _ = Inl TypeError"

text \<open>\<open>v.items()\<close>: again an attribute of dictionaries only.\<close>

fun py_items :: "json \<Rightarrow> py_exc + (string \<times> json) list" where
  "py_items (JObj kvs) = Inr kvs"
| "py_items _ = Inl AttributeError"

subsection \<open>\<open>int(s)\<close> on a string\<close>

text \<open>
  \<open>int\<close> of a string strips surrounding whitespace, reads an optional sign and then
  decimal digits, where single underscores may stand between digits; anything else
  raises \<open>ValueError\<close>. Only ASCII digits and whitespace are modelled.
\<close>

definition is_space :: "char \<Rightarrow> bool" where
  "is_space c = ((of_char c :: nat) \<in> {9, 10, 11, 12, 13, 32})"

definition is_digit :: "char \<Rightarrow> bool" where
  "is_digit c = (48 \<le> (of_char c :: nat) \<and> (of_char c :: nat) \<le> 57)"

definition digit_val :: "char \<Rightarrow> int" where
  "digit_val c = int (of_char c) - 48"

text \<open>
  \<open>digits acc prev s\<close>: the digits read so far have the value \<open>acc\<close>; \<open>prev\<close> says that
  the character before \<open>s\<close> was a digit (so that an underscore may follow).
\<close>

fun digits :: "int \<Rightarrow> bool \<Rightarrow> string \<Rightarrow> int option" where
  "digits acc prev [] = (if prev then Some acc else None)"
| "digits acc prev (c # cs) =
     (if is_digit c then digits (10 * acc + digit_val c) True cs
      else if c = CHR ''_'' \<and> prev then digits acc False cs
      else None)"

definition strip :: "string \<Rightarrow> string" where
  "strip s = rev (dropWhile is_space (rev (dropWhile is_space s)))"

definition py_int :: "string \<Rightarrow> py_exc + int" where
  "py_int s =
     (let t = strip s;
          r = (case t of
                 [] \<Rightarrow> None
               | c # cs \<Rightarrow>
                   if c = CHR ''-'' then map_option uminus (digits 0 False cs)
                   else if c = CHR ''+'' then digits 0 False cs
                   else digits 0 False t)
      in case r of None \<Rightarrow> Inl ValueError | Some n \<Rightarrow> Inr n)"

section \<open>Fetching\<close>

text \<open>
  The HTTP transport is outside the program: \<open>requests.get(url)\<close> either raises or
  returns a response, of which the program reads the status (through
  \<open>raise_for_status\<close>) and the parsed body (through \<open>json()\<close>, which may raise as well).
\<close>

record response =
  status_code :: nat
  json_body :: "py_exc + json"

type_synonym transport = "string \<Rightarrow> py_exc + response"

definition API_BASE_URL :: string where
  "API_BASE_URL = ''https://helldiverstrainingmanual.com/api/v1/war''"

definition PLANETS_URL :: string where
  "PLANETS_URL = ''https://helldiverstrainingmanual.com/api/v1/planets''"

definition ENDPOINTS :: "(string \<times> string) list" where
  "ENDPOINTS =
     [(''status'', API_BASE_URL @ ''/status''),
      (''info'', API_BASE_URL @ ''/info''),
      (''news'', API_BASE_URL @ ''/news''),
      (''campaign'', API_BASE_URL @ ''/campaign''),
      (''major_orders'', API_BASE_URL @ ''/major-orders'')]"

text \<open>
  \<open>raise_for_status\<close> raises \<open>HTTPError\<close>, a \<open>RequestException\<close>, for the statuses 400
  to 599 and for no other.
\<close>

definition raise_for_status :: "response \<Rightarrow> py_exc option" where
  "raise_for_status r =
     (if 400 \<le> status_code r \<and> status_code r < 600 then Some RequestException else None)"

text \<open>
  The result of a call: what it logged, and either the value it returned or the
  exception it let through to its caller.
\<close>

record 'a call =
  logged :: "log_record list"
  result :: "py_exc + 'a"

text \<open>
  \<open>fetch_json\<close>: the handler catches \<open>RequestException\<close> only, logs it and returns
  \<open>None\<close>; the success record is logged before the body is parsed.
\<close>

definition fetch_failed :: "string \<Rightarrow> py_exc \<Rightarrow> log_record list \<Rightarrow> json call" where
  "fetch_failed url e lg =
     (if e = RequestException
      then \<lparr>logged = lg @ [ERROR_EXC (''Error fetching data from '' @ url @ '': '') e],
            result = Inr JNull\<rparr>
      else \<lparr>logged = lg, result = Inl e\<rparr>)"

definition fetch_json :: "transport \<Rightarrow> string \<Rightarrow> json call" where
  "fetch_json http url =
     (case http url of
        Inl e \<Rightarrow> fetch_failed url e []
      | Inr response \<Rightarrow>
          (case raise_for_status response of
             Some e \<Rightarrow> fetch_failed url e []
           | None \<Rightarrow>
               (let lg = [INFO (''Successfully fetched data from '' @ url)]
                in case json_body response of
                     Inl e \<Rightarrow> fetch_failed url e lg
                   | Inr v \<Rightarrow> \<lparr>logged = lg, result = Inr v\<rparr>)))"

text \<open>
  The loop of \<open>fetch_all_data\<close> over the items of a dictionary of URLs: each value
  fetched is stored under its key; an exception that \<open>fetch_json\<close> lets through ends
  the loop.
\<close>

fun fetch_each ::
  "transport \<Rightarrow> (string \<times> string) list \<Rightarrow> (string \<times> json) list \<Rightarrow> log_record list
     \<Rightarrow> (string \<times> json) list call" where
  "fetch_each http [] data lg = \<lparr>logged = lg, result = Inr data\<rparr>"
| "fetch_each http ((key, url) # rest) data lg =
     (let c = fetch_json http url
      in case result c of
           Inl e \<Rightarrow> \<lparr>logged = lg @ logged c, result = Inl e\<rparr>
         | Inr v \<Rightarrow> fetch_each http rest (data @ [(key, v)]) (lg @ logged c))"

definition fetch_all_data :: "transport \<Rightarrow> (string \<times> json) list call" where
  "fetch_all_data http = fetch_each http (ENDPOINTS @ [(''planets'', PLANETS_URL)]) [] []"

section \<open>The relational store\<close>

text \<open>
  The six relations of the \<open>CREATE TABLE\<close> statements. The engine is outside the
  program; what is modelled of it is what the statements of \<open>store_data\<close> rely on: a
  relation exists or not, a relation that exists maps primary keys to rows, and a
  transaction works on a pending copy that \<open>commit\<close> publishes and \<open>rollback\<close> drops.
  Column types are not modelled: what the engine makes of a parameter is its own affair,
  see \<open>engine\<close> below.
\<close>

datatype relation =
    war_status
  | war_info
  | war_news
  | war_campaign
  | war_major_orders
  | planets

text \<open>
  A parameter bound to a \<open>%s\<close>: a Python value (\<open>None\<close> is SQL \<open>NULL\<close>), or the text
  \<open>json.dumps(v)\<close>, which is kept as the value it serialises.
\<close>

datatype param = Py json | Dumps json

text \<open>A stored row: the columns other than the primary key, with their values.\<close>

type_synonym row = "(string \<times> param) list"
type_synonym table = "int \<rightharpoonup> row"
type_synonym db = "relation \<Rightarrow> table option"

text \<open>The columns of each \<open>CREATE TABLE\<close> statement, and its \<open>PRIMARY KEY\<close> column.\<close>

fun primary_key :: "relation \<Rightarrow> string" where
  "primary_key war_status = ''planetIndex''"
| "primary_key war_info = ''planetIndex''"
| "primary_key war_news = ''id''"
| "primary_key war_campaign = ''planetIndex''"
| "primary_key war_major_orders = ''id32''"
| "primary_key planets = ''planetIndex''"

fun table_columns :: "relation \<Rightarrow> string list" where
  "table_columns war_status =
     [''planetIndex'', ''owner'', ''health'', ''regenPerSecond'', ''players'', ''warId'',
      ''time'', ''impactMultiplier'', ''storyBeatId32'']"
| "table_columns war_info =
     [''planetIndex'', ''settingsHash'', ''position_x'', ''position_y'', ''waypoints'',
      ''sector'', ''maxHealth'', ''disabled'', ''initialOwner'', ''warId'', ''startDate'',
      ''endDate'', ''minimumClientVersion'']"
| "table_columns war_news = [''id'', ''published'', ''type'', ''tagIds'', ''message'']"
| "table_columns war_campaign =
     [''planetIndex'', ''name'', ''faction'', ''players'', ''health'', ''maxHealth'',
      ''percentage'', ''defense'', ''majorOrder'', ''biome_slug'', ''biome_description'',
      ''expireDateTime'']"
| "table_columns war_major_orders =
     [''id32'', ''progress'', ''expiresIn'', ''setting_type'', ''setting_overrideTitle'',
      ''setting_overrideBrief'', ''setting_taskDescription'', ''setting_tasks'',
      ''setting_reward_type'', ''setting_reward_id32'', ''setting_reward_amount'',
      ''setting_flags'']"
| "table_columns planets =
     [''planetIndex'', ''name'', ''sector'', ''biome_slug'', ''biome_description'',
      ''environmentals'']"

definition nonkey_columns :: "relation \<Rightarrow> string list" where
  "nonkey_columns r = filter (\<lambda>c. c \<noteq> primary_key r) (table_columns r)"

text \<open>
  The one \<open>INSERT\<close> statement the program has for each relation: its column list and
  its \<open>ON CONFLICT\<close> clause (the conflict target is the primary key every time).
  \<open>DO_UPDATE cs\<close> lists the columns of \<open>SET c = EXCLUDED.c\<close>.
\<close>

fun insert_columns :: "relation \<Rightarrow> string list" where
  "insert_columns war_status =
     [''planetIndex'', ''owner'', ''health'', ''regenPerSecond'', ''players'', ''warId'',
      ''time'', ''impactMultiplier'', ''storyBeatId32'']"
| "insert_columns war_info =
     [''planetIndex'', ''settingsHash'', ''position_x'', ''position_y'', ''waypoints'',
      ''sector'', ''maxHealth'', ''disabled'', ''initialOwner'', ''warId'', ''startDate'',
      ''endDate'', ''minimumClientVersion'']"
| "insert_columns war_news = [''id'', ''published'', ''type'', ''tagIds'', ''message'']"
| "insert_columns war_campaign =
     [''planetIndex'', ''name'', ''faction'', ''players'', ''health'', ''maxHealth'',
      ''percentage'', ''defense'', ''majorOrder'', ''biome_slug'', ''biome_description'',
      ''expireDateTime'']"
| "insert_columns war_major_orders =
     [''id32'', ''progress'', ''expiresIn'', ''setting_type'', ''setting_overrideTitle'',
      ''setting_overrideBrief'', ''setting_taskDescription'', ''setting_tasks'',
      ''setting_reward_type'', ''setting_reward_id32'', ''setting_reward_amount'',
      ''setting_flags'']"
| "insert_columns planets =
     [''planetIndex'', ''name'', ''sector'', ''biome_slug'', ''biome_description'',
      ''environmentals'']"

datatype conflict = DO_NOTHING | DO_UPDATE "string list"

fun on_conflict :: "relation \<Rightarrow> conflict" where
  "on_conflict war_status =
     DO_UPDATE [''owner'', ''health'', ''regenPerSecond'', ''players'', ''warId'', ''time'',
                ''impactMultiplier'', ''storyBeatId32'']"
| "on_conflict war_info =
     DO_UPDATE [''settingsHash'', ''position_x'', ''position_y'', ''waypoints'', ''sector'',
                ''maxHealth'', ''disabled'', ''initialOwner'', ''warId'', ''startDate'',
                ''endDate'', ''minimumClientVersion'']"
| "on_conflict war_news = DO_NOTHING"
| "on_conflict war_campaign =
     DO_UPDATE [''name'', ''faction'', ''players'', ''health'', ''maxHealth'', ''percentage'',
                ''defense'', ''majorOrder'', ''biome_slug'', ''biome_description'',
                ''expireDateTime'']"
| "on_conflict war_major_orders =
     DO_UPDATE [''progress'', ''expiresIn'', ''setting_type'', ''setting_overrideTitle'',
                ''setting_overrideBrief'', ''setting_taskDescription'', ''setting_tasks'',
                ''setting_reward_type'', ''setting_reward_id32'', ''setting_reward_amount'',
                ''setting_flags'']"
| "on_conflict planets =
     DO_UPDATE [''name'', ''sector'', ''biome_slug'', ''biome_description'',
                ''environmentals'']"

text \<open>
  The statements of the program: \<open>CREATE TABLE IF NOT EXISTS r\<close>, and the \<open>INSERT\<close> of
  relation \<open>r\<close> with the tuple of parameters bound to its placeholders.
\<close>

datatype stmt = CREATE_TABLE relation | INSERT relation "param list"

text \<open>
  What the engine does that the program does not decide: whether \<open>connect\<close>, the
  \<open>n\<close>-th \<open>execute\<close>, \<open>commit\<close> and \<open>rollback\<close> raise (a lost connection, a value the
  column type refuses, a parameter psycopg2 cannot adapt), and which \<open>INTEGER\<close> key it
  reads from the parameter bound to a primary key column (\<open>None\<close>: it refuses it).
\<close>

record engine =
  connect_raises :: bool
  execute_raises :: "nat \<Rightarrow> stmt \<Rightarrow> bool"
  commit_raises :: bool
  rollback_raises :: bool
  key_value :: "param \<Rightarrow> int option"

text \<open>\<open>EXCLUDED.c\<close>: the value the statement proposes for column \<open>c\<close>.\<close>

definition excluded :: "relation \<Rightarrow> param list \<Rightarrow> string \<Rightarrow> param" where
  "excluded r ps c =
     (case map_of (zip (insert_columns r) ps) c of None \<Rightarrow> Py JNull | Some v \<Rightarrow> v)"

text \<open>The primary key of the proposed row; a \<open>NULL\<close> key violates the constraint.\<close>

definition key_of :: "(param \<Rightarrow> int option) \<Rightarrow> relation \<Rightarrow> param list \<Rightarrow> int option" where
  "key_of kv r ps =
     (let v = excluded r ps (primary_key r) in if v = Py JNull then None else kv v)"

definition inserted_row :: "relation \<Rightarrow> param list \<Rightarrow> row" where
  "inserted_row r ps = map (\<lambda>c. (c, excluded r ps c)) (nonkey_columns r)"

definition column :: "row \<Rightarrow> string \<Rightarrow> param" where
  "column old c = (case map_of old c of None \<Rightarrow> Py JNull | Some v \<Rightarrow> v)"

definition updated_row :: "relation \<Rightarrow> string list \<Rightarrow> param list \<Rightarrow> row \<Rightarrow> row" where
  "updated_row r cs ps old =
     map (\<lambda>c. (c, if c \<in> set cs then excluded r ps c else column old c)) (nonkey_columns r)"

text \<open>The effect of a statement on the pending database; \<open>None\<close> when it raises.\<close>

fun apply_stmt :: "(param \<Rightarrow> int option) \<Rightarrow> stmt \<Rightarrow> db \<Rightarrow> db option" where
  "apply_stmt kv (CREATE_TABLE r) d =
     Some (case d r of None \<Rightarrow> d(r := Some Map.empty) | Some t \<Rightarrow> d)"
| "apply_stmt kv (INSERT r ps) d =
     (case d r of
        None \<Rightarrow> None
      | Some t \<Rightarrow>
          (case key_of kv r ps of
             None \<Rightarrow> None
           | Some k \<Rightarrow>
               (case t k of
                  None \<Rightarrow> Some (d(r := Some (t(k \<mapsto> inserted_row r ps))))
                | Some old \<Rightarrow>
                    (case on_conflict r of
                       DO_NOTHING \<Rightarrow> Some d
                     | DO_UPDATE cs \<Rightarrow> Some (d(r := Some (t(k \<mapsto> updated_row r cs ps old))))))))"

section \<open>What \<open>store_data\<close> does with a connection\<close>

text \<open>
  \<open>store_data\<close> never reads the database, so what its \<open>try\<close> block does once the
  connection is there is fixed by \<open>data\<close>: a sequence of statements to execute and
  records to log, in program order, ended by the exception if the Python code itself
  raises. The engine then decides how far the sequence gets.
\<close>

datatype action = Execute stmt | Commit | Log log_record

type_synonym trace = "action list \<times> py_exc option"

definition then_trace :: "trace \<Rightarrow> trace \<Rightarrow> trace" where
  "then_trace a b =
     (case snd a of
        Some e \<Rightarrow> a
      | None \<Rightarrow> (fst a @ fst b, snd b))"

text \<open>
  A \<open>for\<close> loop whose body builds the parameters of one statement and executes it.
\<close>

fun for_each :: "('a \<Rightarrow> py_exc + stmt) \<Rightarrow> 'a list \<Rightarrow> trace" where
  "for_each body [] = ([], None)"
| "for_each body (x # xs) =
     (case body x of
        Inl e \<Rightarrow> ([], Some e)
      | Inr q \<Rightarrow> then_trace ([Execute q], None) (for_each body xs))"

definition insert_into :: "relation \<Rightarrow> py_exc + param list \<Rightarrow> py_exc + stmt" where
  "insert_into r ps = (case ps of Inl e \<Rightarrow> Inl e | Inr p \<Rightarrow> Inr (INSERT r p))"

definition create_tables :: trace where
  "create_tables =
     ([Execute (CREATE_TABLE war_status), Execute (CREATE_TABLE war_info),
       Execute (CREATE_TABLE war_news), Execute (CREATE_TABLE war_campaign),
       Execute (CREATE_TABLE war_major_orders), Execute (CREATE_TABLE planets)], None)"

subsection \<open>war_status\<close>

definition status_params :: "(string \<times> json) list \<Rightarrow> json \<Rightarrow> py_exc + param list" where
  "status_params st status =
     (case as_dict status of
        Inl e \<Rightarrow> Inl e
      | Inr s \<Rightarrow>
          Inr [Py (get s ''index''), Py (get s ''owner''), Py (get s ''health''),
               Py (get s ''regenPerSecond''), Py (get s ''players''), Py (get st ''warId''),
               Py (get st ''time''), Py (get st ''impactMultiplier''),
               Py (get st ''storyBeatId32'')])"

definition store_status :: "(string \<times> json) list \<Rightarrow> trace" where
  "store_status data =
     (case map_of data ''status'' of
        None \<Rightarrow> ([], None)
      | Some v \<Rightarrow>
          if \<not> truthy v then ([], None)
          else (case as_dict v of
                  Inl e \<Rightarrow> ([], Some e)
                | Inr st \<Rightarrow>
                    (case py_iter (get_or st ''planetStatus'' (JArr [])) of
                       Inl e \<Rightarrow> ([], Some e)
                     | Inr planet_status \<Rightarrow>
                         then_trace
                           (for_each (\<lambda>status. insert_into war_status (status_params st status))
                              planet_status)
                           ([Log (INFO ''Stored war_status data successfully.'')], None))))"

subsection \<open>war_info\<close>

definition info_params :: "(string \<times> json) list \<Rightarrow> json \<Rightarrow> py_exc + param list" where
  "info_params hdr info =
     (case as_dict info of
        Inl e \<Rightarrow> Inl e
      | Inr i \<Rightarrow>
          (let waypoints = get_or i ''waypoints'' (JArr [])
           in case as_dict (get_or i ''position'' (JObj [])) of
                Inl e \<Rightarrow> Inl e
              | Inr position \<Rightarrow>
                  Inr [Py (get i ''index''), Py (get i ''settingsHash''),
                       Py (get position ''x''), Py (get position ''y''), Py waypoints,
                       Py (get i ''sector''), Py (get i ''maxHealth''), Py (get i ''disabled''),
                       Py (get i ''initialOwner''), Py (get hdr ''warId''),
                       Py (get hdr ''startDate''), Py (get hdr ''endDate''),
                       Py (get hdr ''minimumClientVersion'')]))"

definition store_info :: "(string \<times> json) list \<Rightarrow> trace" where
  "store_info data =
     (case map_of data ''info'' of
        None \<Rightarrow> ([], None)
      | Some v \<Rightarrow>
          if \<not> truthy v then ([], None)
          else (case as_dict v of
                  Inl e \<Rightarrow> ([], Some e)
                | Inr hdr \<Rightarrow>
                    (case py_iter (get_or hdr ''planetInfos'' (JArr [])) of
                       Inl e \<Rightarrow> ([], Some e)
                     | Inr planet_infos \<Rightarrow>
                         then_trace
                           (for_each (\<lambda>info. insert_into war_info (info_params hdr info))
                              planet_infos)
                           ([Log (INFO ''Stored war_info data successfully.'')], None))))"

subsection \<open>war_news\<close>

definition news_params :: "json \<Rightarrow> py_exc + param list" where
  "news_params news =
     (case as_dict news of
        Inl e \<Rightarrow> Inl e
      | Inr n \<Rightarrow>
          Inr [Py (get n ''id''), Py (get n ''published''), Py (get n ''type''),
               Py (get n ''tagIds''), Py (get n ''message'')])"

definition store_news :: "(string \<times> json) list \<Rightarrow> trace" where
  "store_news data =
     (case map_of data ''news'' of
        None \<Rightarrow> ([], None)
      | Some v \<Rightarrow>
          if \<not> truthy v then ([], None)
          else (case py_iter v of
                  Inl e \<Rightarrow> ([], Some e)
                | Inr news_items \<Rightarrow>
                    then_trace
                      (for_each (\<lambda>news. insert_into war_news (news_params news)) news_items)
                      ([Log (INFO ''Stored war_news data successfully.'')], None)))"

subsection \<open>war_campaign\<close>

definition campaign_params :: "json \<Rightarrow> py_exc + param list" where
  "campaign_params campaign =
     (case as_dict campaign of
        Inl e \<Rightarrow> Inl e
      | Inr c \<Rightarrow>
          (case as_dict (get_or c ''biome'' (JObj [])) of
             Inl e \<Rightarrow> Inl e
           | Inr biome \<Rightarrow>
               Inr [Py (get c ''planetIndex''), Py (get c ''name''), Py (get c ''faction''),
                    Py (get c ''players''), Py (get c ''health''), Py (get c ''maxHealth''),
                    Py (get c ''percentage''), Py (get c ''defense''),
                    Py (get c ''majorOrder''), Py (get biome ''slug''),
                    Py (get biome ''description''), Py (get c ''expireDateTime'')]))"

definition store_campaign :: "(string \<times> json) list \<Rightarrow> trace" where
  "store_campaign data =
     (case map_of data ''campaign'' of
        None \<Rightarrow> ([], None)
      | Some v \<Rightarrow>
          if \<not> truthy v then ([], None)
          else (case py_iter v of
                  Inl e \<Rightarrow> ([], Some e)
                | Inr campaigns \<Rightarrow>
                    then_trace
                      (for_each (\<lambda>campaign. insert_into war_campaign (campaign_params campaign))
                         campaigns)
                      ([Log (INFO ''Stored war_campaign data successfully.'')], None)))"

subsection \<open>war_major_orders\<close>

definition order_params :: "json \<Rightarrow> py_exc + param list" where
  "order_params order =
     (case as_dict order of
        Inl e \<Rightarrow> Inl e
      | Inr ord \<Rightarrow>
          (case as_dict (get_or ord ''setting'' (JObj [])) of
             Inl e \<Rightarrow> Inl e
           | Inr setting \<Rightarrow>
               (case as_dict (get_or setting ''reward'' (JObj [])) of
                  Inl e \<Rightarrow> Inl e
                | Inr reward \<Rightarrow>
                    Inr [Py (get ord ''id32''), Py (get ord ''progress''),
                         Py (get ord ''expiresIn''), Py (get setting ''type''),
                         Py (get setting ''overrideTitle''), Py (get setting ''overrideBrief''),
                         Py (get setting ''taskDescription''), Dumps (get setting ''tasks''),
                         Py (get reward ''type''), Py (get reward ''id32''),
                         Py (get reward ''amount''), Py (get setting ''flags'')])))"

definition store_major_orders :: "(string \<times> json) list \<Rightarrow> trace" where
  "store_major_orders data =
     (case map_of data ''major_orders'' of
        None \<Rightarrow> ([], None)
      | Some v \<Rightarrow>
          if \<not> truthy v then ([], None)
          else (case py_iter v of
                  Inl e \<Rightarrow> ([], Some e)
                | Inr major_orders \<Rightarrow>
                    then_trace
                      (for_each (\<lambda>order. insert_into war_major_orders (order_params order))
                         major_orders)
                      ([Log (INFO ''Stored war_major_orders data successfully.'')], None)))"

subsection \<open>planets\<close>

definition planet_params :: "string \<times> json \<Rightarrow> py_exc + param list" where
  "planet_params item =
     (case as_dict (snd item) of
        Inl e \<Rightarrow> Inl e
      | Inr planet \<Rightarrow>
          (let environmentals = get_or planet ''environmentals'' (JArr [])
           in case py_int (fst item) of
                Inl e \<Rightarrow> Inl e
              | Inr planet_index \<Rightarrow>
                  (case as_dict (get_or planet ''biome'' (JObj [])) of
                     Inl e \<Rightarrow> Inl e
                   | Inr biome \<Rightarrow>
                       Inr [Py (JInt planet_index), Py (get planet ''name''),
                            Py (get planet ''sector''), Py (get biome ''slug''),
                            Py (get biome ''description''), Dumps environmentals])))"

definition store_planets :: "(string \<times> json) list \<Rightarrow> trace" where
  "store_planets data =
     (case map_of data ''planets'' of
        None \<Rightarrow> ([], None)
      | Some v \<Rightarrow>
          if \<not> truthy v then ([], None)
          else (case py_items v of
                  Inl e \<Rightarrow> ([], Some e)
                | Inr items \<Rightarrow>
                    then_trace
                      (for_each (\<lambda>item. insert_into planets (planet_params item)) items)
                      ([Log (INFO ''Stored planets data successfully.'')], None)))"

section \<open>The transaction\<close>

text \<open>
  The state of the connection while the \<open>try\<close> block runs: the database as committed,
  the pending copy the statements of the open transaction work on, the number of
  \<open>execute\<close> calls made, and the log so far.
\<close>

record session =
  committed :: db
  pending :: db
  executed :: nat
  journal :: "log_record list"

text \<open>
  Running the actions on a connection: an \<open>execute\<close> raises when the engine says so or
  when the statement has no effect to apply; \<open>commit\<close> publishes the pending copy.
  The first exception ends the run.
\<close>

fun run :: "engine \<Rightarrow> action list \<Rightarrow> session \<Rightarrow> py_exc option \<times> session" where
  "run eng [] s = (None, s)"
| "run eng (Log l # as) s = run eng as (s\<lparr>journal := journal s @ [l]\<rparr>)"
| "run eng (Commit # as) s =
     (if commit_raises eng then (Some DatabaseError, s)
      else run eng as (s\<lparr>committed := pending s\<rparr>))"
| "run eng (Execute q # as) s =
     (if execute_raises eng (executed s) q
      then (Some DatabaseError, s\<lparr>executed := Suc (executed s)\<rparr>)
      else (case apply_stmt (key_value eng) q (pending s) of
              None \<Rightarrow> (Some DatabaseError, s\<lparr>executed := Suc (executed s)\<rparr>)
            | Some d \<Rightarrow> run eng as (s\<lparr>pending := d, executed := Suc (executed s)\<rparr>)))"

definition perform :: "engine \<Rightarrow> trace \<Rightarrow> session \<Rightarrow> py_exc option \<times> session" where
  "perform eng t s =
     (case run eng (fst t) s of
        (Some e, s') \<Rightarrow> (Some e, s')
      | (None, s') \<Rightarrow> (snd t, s'))"

text \<open>The upserts of \<open>store_data\<close>, in program order.\<close>

definition upserts :: "(string \<times> json) list \<Rightarrow> trace" where
  "upserts data =
     then_trace (store_status data)
       (then_trace (store_info data)
          (then_trace (store_news data)
             (then_trace (store_campaign data)
                (then_trace (store_major_orders data) (store_planets data)))))"

text \<open>The \<open>try\<close> block after \<open>connect\<close>: the statements, then \<open>commit\<close>.\<close>

definition statements :: "(string \<times> json) list \<Rightarrow> trace" where
  "statements data = then_trace create_tables (upserts data)"

definition try_block :: "(string \<times> json) list \<Rightarrow> trace" where
  "try_block data =
     then_trace (statements data)
       ([Commit, Log (INFO ''All data stored successfully.'')], None)"

text \<open>
  How a call of \<open>store_data\<close> ended: \<open>Unconnected\<close> (no connection, hence no
  transaction), \<open>Committed\<close>, \<open>RolledBack\<close> (the handler's \<open>rollback\<close> returned), or
  \<open>Aborted\<close> (the handler's \<open>rollback\<close> raised; the engine drops the transaction of a
  connection that is gone).
\<close>

datatype ending = Unconnected | Committed | RolledBack | Aborted

record 'a outcome = "'a call" +
  store :: db
  ending :: ending

text \<open>
  \<open>store_data\<close> on the database \<open>db\<close>. When \<open>connect\<close> raises, the handler runs with
  \<open>conn\<close> unbound: \<open>conn.rollback()\<close> raises \<open>UnboundLocalError\<close>, which leaves the
  function. Otherwise an exception of the \<open>try\<close> block is followed by \<open>rollback\<close> and
  one error record, and the function returns \<open>None\<close> as it does after \<open>commit\<close>.
\<close>

definition session_on :: "db \<Rightarrow> session" where
  "session_on db = \<lparr>committed = db, pending = db, executed = 0, journal = []\<rparr>"

definition connect :: "engine \<Rightarrow> db \<Rightarrow> py_exc + session" where
  "connect eng db = (if connect_raises eng then Inl DatabaseError else Inr (session_on db))"

definition rollback :: "engine \<Rightarrow> session \<Rightarrow> py_exc + session" where
  "rollback eng s =
     (if rollback_raises eng then Inl DatabaseError else Inr (s\<lparr>pending := committed s\<rparr>))"

definition store_data :: "engine \<Rightarrow> db \<Rightarrow> (string \<times> json) list \<Rightarrow> unit outcome" where
  "store_data eng db data =
     (case connect eng db of
        Inl e \<Rightarrow>
          \<lparr>logged = [], result = Inl UnboundLocalError, store = db, ending = Unconnected\<rparr>
      | Inr conn \<Rightarrow>
          (case perform eng (try_block data) conn of
             (None, s) \<Rightarrow>
               \<lparr>logged = journal s, result = Inr (), store = committed s, ending = Committed\<rparr>
           | (Some e, s) \<Rightarrow>
               (case rollback eng s of
                  Inl e' \<Rightarrow>
                    \<lparr>logged = journal s, result = Inl e', store = committed s,
                     ending = Aborted\<rparr>
                | Inr s' \<Rightarrow>
                    \<lparr>logged = journal s' @ [ERROR_EXC ''Error storing data: '' e],
                     result = Inr (), store = committed s', ending = RolledBack\<rparr>)))"

text \<open>\<open>main\<close>: fetch, store, and the closing record when neither raised.\<close>

definition main :: "transport \<Rightarrow> engine \<Rightarrow> db \<Rightarrow> unit outcome" where
  "main http eng db =
     (let started = [INFO ''Pipeline started.''];
          f = fetch_all_data http
      in case result f of
           Inl e \<Rightarrow>
             \<lparr>logged = started @ logged f, result = Inl e, store = db, ending = Unconnected\<rparr>
         | Inr data \<Rightarrow>
             (let r = store_data eng db data
              in case result r of
                   Inl e \<Rightarrow> r\<lparr>logged := started @ logged f @ logged r\<rparr>
                 | Inr u \<Rightarrow>
                     r\<lparr>logged := started @ logged f @ logged r
                                   @ [INFO ''Pipeline finished successfully.'']\<rparr>))"

section \<open>Notions the properties are stated with\<close>

text \<open>The row stored under a key of a relation, if the relation exists and has one.\<close>

definition cell :: "db \<Rightarrow> relation \<Rightarrow> int \<Rightarrow> row option" where
  "cell d r k = (case d r of None \<Rightarrow> None | Some t \<Rightarrow> t k)"

text \<open>The value a stored row has in a column.\<close>

definition stored_column :: "db \<Rightarrow> relation \<Rightarrow> int \<Rightarrow> string \<Rightarrow> param option" where
  "stored_column d r k c = (case cell d r k of None \<Rightarrow> None | Some rw \<Rightarrow> Some (column rw c))"

text \<open>
  A field of an input record, named by the keys that lead to it through nested
  objects; \<open>None\<close> when a key on the way is absent.
\<close>

fun lookup_path :: "json \<Rightarrow> string list \<Rightarrow> json option" where
  "lookup_path v [] = Some v"
| "lookup_path (JObj d) (k # ks) =
     (case map_of d k of None \<Rightarrow> None | Some w \<Rightarrow> lookup_path w ks)"
| "lookup_path v (k # ks) = None"

text \<open>
  The columns of each relation that are read from an optional field of the input
  record, with the field. Left out: the three columns with a default of their own
  (\<open>waypoints\<close>, \<open>environmentals\<close>, \<open>setting_tasks\<close>), the columns read from the envelope
  of the resource, and the key of \<open>planets\<close>, which is the key of the input map.
\<close>

fun optional_fields :: "relation \<Rightarrow> (string \<times> string list) list" where
  "optional_fields war_status =
     [(''planetIndex'', [''index'']), (''owner'', [''owner'']), (''health'', [''health'']),
      (''regenPerSecond'', [''regenPerSecond'']), (''players'', [''players''])]"
| "optional_fields war_info =
     [(''planetIndex'', [''index'']), (''settingsHash'', [''settingsHash'']),
      (''position_x'', [''position'', ''x'']), (''position_y'', [''position'', ''y'']),
      (''sector'', [''sector'']), (''maxHealth'', [''maxHealth'']),
      (''disabled'', [''disabled'']), (''initialOwner'', [''initialOwner''])]"
| "optional_fields war_news =
     [(''id'', [''id'']), (''published'', [''published'']), (''type'', [''type'']),
      (''tagIds'', [''tagIds'']), (''message'', [''message''])]"
| "optional_fields war_campaign =
     [(''planetIndex'', [''planetIndex'']), (''name'', [''name'']), (''faction'', [''faction'']),
      (''players'', [''players'']), (''health'', [''health'']), (''maxHealth'', [''maxHealth'']),
      (''percentage'', [''percentage'']), (''defense'', [''defense'']),
      (''majorOrder'', [''majorOrder'']), (''biome_slug'', [''biome'', ''slug'']),
      (''biome_description'', [''biome'', ''description'']),
      (''expireDateTime'', [''expireDateTime''])]"
| "optional_fields war_major_orders =
     [(''id32'', [''id32'']), (''progress'', [''progress'']), (''expiresIn'', [''expiresIn'']),
      (''setting_type'', [''setting'', ''type'']),
      (''setting_overrideTitle'', [''setting'', ''overrideTitle'']),
      (''setting_overrideBrief'', [''setting'', ''overrideBrief'']),
      (''setting_taskDescription'', [''setting'', ''taskDescription'']),
      (''setting_reward_type'', [''setting'', ''reward'', ''type'']),
      (''setting_reward_id32'', [''setting'', ''reward'', ''id32'']),
      (''setting_reward_amount'', [''setting'', ''reward'', ''amount'']),
      (''setting_flags'', [''setting'', ''flags''])]"
| "optional_fields planets =
     [(''name'', [''name'']), (''sector'', [''sector'']), (''biome_slug'', [''biome'', ''slug'']),
      (''biome_description'', [''biome'', ''description''])]"

text \<open>The columns read from the envelope of \<open>status\<close> and of \<open>info\<close>, with the field.\<close>

fun envelope_fields :: "relation \<Rightarrow> (string \<times> string) list" where
  "envelope_fields war_status =
     [(''warId'', ''warId''), (''time'', ''time''), (''impactMultiplier'', ''impactMultiplier''),
      (''storyBeatId32'', ''storyBeatId32'')]"
| "envelope_fields war_info =
     [(''warId'', ''warId''), (''startDate'', ''startDate''), (''endDate'', ''endDate''),
      (''minimumClientVersion'', ''minimumClientVersion'')]"
| "envelope_fields r = []"

subsection \<open>The rows a payload stands for\<close>

text \<open>
  The normalised rows, written from the description of the data: a field that is
  absent reads as \<open>None\<close>; a column is read from the field of the record the table
  above names, or from the envelope of the resource; \<open>waypoints\<close> and \<open>environmentals\<close>
  default to the empty list, and \<open>environmentals\<close> and the task list are kept as JSON
  text. These definitions do not use the parameter builders of \<open>store_data\<close>; the
  theorems below compare the two.
\<close>

definition field :: "json \<Rightarrow> string list \<Rightarrow> json" where
  "field v p = (case lookup_path v p of None \<Rightarrow> JNull | Some w \<Rightarrow> w)"

definition field_or :: "json \<Rightarrow> string list \<Rightarrow> json \<Rightarrow> json" where
  "field_or v p dflt = (case lookup_path v p of None \<Rightarrow> dflt | Some w \<Rightarrow> w)"

definition expected_column :: "relation \<Rightarrow> json \<Rightarrow> json \<Rightarrow> string \<Rightarrow> param" where
  "expected_column r envelope item c =
     (if r = war_info \<and> c = ''waypoints''
      then Py (field_or item [''waypoints''] (JArr []))
      else if r = planets \<and> c = ''environmentals''
      then Dumps (field_or item [''environmentals''] (JArr []))
      else if r = war_major_orders \<and> c = ''setting_tasks''
      then Dumps (field item [''setting'', ''tasks''])
      else (case map_of (optional_fields r) c of
              Some p \<Rightarrow> Py (field item p)
            | None \<Rightarrow>
                (case map_of (envelope_fields r) c of
                   Some f \<Rightarrow> Py (field envelope [f])
                 | None \<Rightarrow> Py JNull)))"

text \<open>The row a record stands for, and the parameters that propose it under a key.\<close>

definition expected_row :: "relation \<Rightarrow> json \<Rightarrow> json \<Rightarrow> row" where
  "expected_row r envelope item =
     map (\<lambda>c. (c, expected_column r envelope item c)) (nonkey_columns r)"

definition expected_params :: "relation \<Rightarrow> param \<times> json \<times> json \<Rightarrow> param list" where
  "expected_params r rec =
     map (\<lambda>c. if c = primary_key r then fst rec
              else expected_column r (fst (snd rec)) (snd (snd rec)) c)
       (insert_columns r)"

text \<open>
  The records a payload has for a relation, in payload order, each with the parameter
  its key is read from and the envelope of its resource: the elements of the list of
  the resource (of \<open>planetStatus\<close> and \<open>planetInfos\<close> inside \<open>status\<close> and \<open>info\<close>), and
  for \<open>planets\<close> the entries of the map, whose key is parsed as an integer.
\<close>

definition resource :: "(string \<times> json) list \<Rightarrow> string \<Rightarrow> json" where
  "resource data key = (case map_of data key of None \<Rightarrow> JNull | Some v \<Rightarrow> v)"

fun elements :: "json \<Rightarrow> json list" where
  "elements (JArr xs) = xs"
| "elements v = []"

definition keyed :: "string \<Rightarrow> json \<Rightarrow> json \<Rightarrow> param \<times> json \<times> json" where
  "keyed f envelope item = (Py (field item [f]), envelope, item)"

definition planet_record :: "string \<times> json \<Rightarrow> param \<times> json \<times> json" where
  "planet_record kv =
     ((case py_int (fst kv) of Inl e \<Rightarrow> Py JNull | Inr n \<Rightarrow> Py (JInt n)), JNull, snd kv)"

fun records :: "(string \<times> json) list \<Rightarrow> relation \<Rightarrow> (param \<times> json \<times> json) list" where
  "records data war_status =
     map (keyed ''index'' (resource data ''status''))
       (elements (field (resource data ''status'') [''planetStatus'']))"
| "records data war_info =
     map (keyed ''index'' (resource data ''info''))
       (elements (field (resource data ''info'') [''planetInfos'']))"
| "records data war_news = map (keyed ''id'' JNull) (elements (resource data ''news''))"
| "records data war_campaign =
     map (keyed ''planetIndex'' JNull) (elements (resource data ''campaign''))"
| "records data war_major_orders =
     map (keyed ''id32'' JNull) (elements (resource data ''major_orders''))"
| "records data planets =
     (case resource data ''planets'' of JObj kvs \<Rightarrow> map planet_record kvs | v \<Rightarrow> [])"

text \<open>
  The key the engine reads from a key parameter (\<open>NULL\<close> is refused), and the keys a
  payload has for a relation.
\<close>

definition param_key :: "(param \<Rightarrow> int option) \<Rightarrow> param \<Rightarrow> int option" where
  "param_key kv p = (if p = Py JNull then None else kv p)"

definition payload_keys ::
  "(param \<Rightarrow> int option) \<Rightarrow> (string \<times> json) list \<Rightarrow> relation \<Rightarrow> int option list" where
  "payload_keys kv data r = map (\<lambda>rec. param_key kv (fst rec)) (records data r)"

text \<open>The upserts a payload stands for: one per record, in payload order.\<close>

definition payload_stmts :: "(string \<times> json) list \<Rightarrow> relation \<Rightarrow> stmt list" where
  "payload_stmts data r = map (\<lambda>rec. INSERT r (expected_params r rec)) (records data r)"

definition all_payload_stmts :: "(string \<times> json) list \<Rightarrow> stmt list" where
  "all_payload_stmts data =
     payload_stmts data war_status @ payload_stmts data war_info @ payload_stmts data war_news
     @ payload_stmts data war_campaign @ payload_stmts data war_major_orders
     @ payload_stmts data planets"

subsection \<open>The effect of statements on one row\<close>

text \<open>The statements among the actions of a trace.\<close>

fun stmts_of :: "action list \<Rightarrow> stmt list" where
  "stmts_of [] = []"
| "stmts_of (Execute q # as) = q # stmts_of as"
| "stmts_of (a # as) = stmts_of as"

text \<open>
  \<open>targets kv q r k\<close>: the statement is an \<open>INSERT\<close> into relation \<open>r\<close> that proposes a
  row under key \<open>k\<close>.
\<close>

fun targets :: "(param \<Rightarrow> int option) \<Rightarrow> stmt \<Rightarrow> relation \<Rightarrow> int \<Rightarrow> bool" where
  "targets kv (CREATE_TABLE r') r k = False"
| "targets kv (INSERT r' ps) r k = (r' = r \<and> key_of kv r' ps = Some k)"

text \<open>
  What a statement does to the row under key \<open>k\<close> of relation \<open>r\<close> (\<open>None\<close>: no row),
  and what a sequence of statements does to it; read off \<open>apply_stmt\<close>.
\<close>

fun effect ::
  "(param \<Rightarrow> int option) \<Rightarrow> stmt \<Rightarrow> relation \<Rightarrow> int \<Rightarrow> row option \<Rightarrow> row option" where
  "effect kv (CREATE_TABLE r') r k v = v"
| "effect kv (INSERT r' ps) r k v =
     (if r' = r \<and> key_of kv r' ps = Some k
      then (case v of
              None \<Rightarrow> Some (inserted_row r' ps)
            | Some old \<Rightarrow>
                (case on_conflict r' of
                   DO_NOTHING \<Rightarrow> Some old
                 | DO_UPDATE cs \<Rightarrow> Some (updated_row r' cs ps old)))
      else v)"

fun effects ::
  "(param \<Rightarrow> int option) \<Rightarrow> stmt list \<Rightarrow> relation \<Rightarrow> int \<Rightarrow> row option \<Rightarrow> row option" where
  "effects kv [] r k v = v"
| "effects kv (q # qs) r k v = effects kv qs r k (effect kv q r k v)"

subsection \<open>What a run fetches\<close>


text \<open>
  What a resource yields: the parsed body when the request returns, the status is
  outside 400 to 599 and the body parses; \<open>None\<close> when the fetch fails.
\<close>

definition fetched :: "transport \<Rightarrow> string \<Rightarrow> json" where
  "fetched http url =
     (case http url of
        Inl e \<Rightarrow> JNull
      | Inr r \<Rightarrow>
          if 400 \<le> status_code r \<and> status_code r < 600 then JNull
          else (case json_body r of Inl e \<Rightarrow> JNull | Inr v \<Rightarrow> v))"





section \<open>Example inputs\<close>

text \<open>
  An engine on which nothing fails and which reads the key off an integer parameter,
  the same engine with no connection to be had, and a database with no relation yet.
\<close>

definition integer_key :: "param \<Rightarrow> int option" where
  "integer_key p = (case p of Py (JInt n) \<Rightarrow> Some n | _ \<Rightarrow> None)"

definition plain_engine :: engine where
  "plain_engine =
     \<lparr>connect_raises = False, execute_raises = (\<lambda>n q. False), commit_raises = False,
      rollback_raises = False, key_value = integer_key\<rparr>"

definition offline_engine :: engine where
  "offline_engine = plain_engine\<lparr>connect_raises := True\<rparr>"

definition no_tables :: db where
  "no_tables = (\<lambda>r. None)"

text \<open>A status payload whose second planet has no \<open>index\<close>: its key would be \<open>NULL\<close>.\<close>

definition half_bad_status :: "(string \<times> json) list" where
  "half_bad_status =
     [(''status'',
       JObj [(''planetStatus'',
              JArr [JObj [(''index'', JInt 1), (''health'', JInt 9000)],
                    JObj [(''owner'', JInt 2)]])])]"

text \<open>Transports: every request fails, or every request gets one fixed answer.\<close>

definition transport_down :: transport where
  "transport_down = (\<lambda>url. Inl RequestException)"

definition transport_answering :: "nat \<Rightarrow> json \<Rightarrow> transport" where
  "transport_answering n v = (\<lambda>url. Inr \<lparr>status_code = n, json_body = Inr v\<rparr>)"

text \<open>An info payload with one planet that has an index and nothing else.\<close>

definition bare_info_record :: json where
  "bare_info_record = JObj [(''index'', JInt 1)]"

definition bare_info_envelope :: json where
  "bare_info_envelope = JObj [(''planetInfos'', JArr [bare_info_record])]"

definition bare_info :: "(string \<times> json) list" where
  "bare_info = [(''info'', bare_info_envelope)]"

text \<open>
  A database whose \<open>war_status\<close> has planets 5 and 6, and a status payload that has
  planet 5 only, with health 80.
\<close>

definition status_row :: "int \<Rightarrow> row" where
  "status_row h =
     [(''owner'', Py (JInt 1)), (''health'', Py (JInt h)), (''regenPerSecond'', Py (JInt 3)),
      (''players'', Py (JInt 40)), (''warId'', Py (JInt 801)), (''time'', Py (JInt 100)),
      (''impactMultiplier'', Py (JInt 1)), (''storyBeatId32'', Py (JInt 0))]"

definition rows_5_and_6 :: table where
  "rows_5_and_6 = [5 \<mapsto> status_row 100, 6 \<mapsto> status_row 70]"

definition two_planets :: db where
  "two_planets = no_tables(war_status := Some rows_5_and_6)"

definition planet_5_params :: "param list" where
  "planet_5_params =
     [Py (JInt 5), Py (JInt 2), Py (JInt 80), Py JNull, Py (JInt 41), Py (JInt 801),
      Py (JInt 200), Py JNull, Py JNull]"

definition planet_5_record :: json where
  "planet_5_record =
     JObj [(''index'', JInt 5), (''owner'', JInt 2), (''health'', JInt 80),
           (''players'', JInt 41)]"

definition planet_5_envelope :: json where
  "planet_5_envelope =
     JObj [(''warId'', JInt 801), (''time'', JInt 200),
           (''planetStatus'', JArr [planet_5_record])]"

definition planet_5_status :: "(string \<times> json) list" where
  "planet_5_status = [(''status'', planet_5_envelope)]"

text \<open>
  A database whose \<open>war_news\<close> has item 42, and a news payload that has item 42 again,
  with every field changed, and a new item 43.
\<close>

definition news_row :: row where
  "news_row =
     [(''published'', Py (JInt 1000)), (''type'', Py (JInt 0)),
      (''tagIds'', Py (JArr [JInt 1])), (''message'', Py (JStr ''first words''))]"

definition one_news :: db where
  "one_news = no_tables(war_news := Some [42 \<mapsto> news_row])"

definition changed_news :: "(string \<times> json) list" where
  "changed_news =
     [(''news'',
       JArr [JObj [(''id'', JInt 42), (''published'', JInt 2000), (''type'', JInt 1),
                   (''tagIds'', JArr [JInt 2, JInt 3]), (''message'', JStr ''other words'')],
             JObj [(''id'', JInt 43), (''message'', JStr ''more'')]])]"

text \<open>
  A payload that has planet 5 twice, with health 10 and then 20, and news item 42
  twice, with two messages.
\<close>

definition repeated_payload :: "(string \<times> json) list" where
  "repeated_payload =
     [(''status'',
       JObj [(''planetStatus'',
              JArr [JObj [(''index'', JInt 5), (''health'', JInt 10)],
                    JObj [(''index'', JInt 5), (''health'', JInt 20)]])]),
      (''news'',
       JArr [JObj [(''id'', JInt 42), (''message'', JStr ''a'')],
             JObj [(''id'', JInt 42), (''message'', JStr ''b'')]])]"

text \<open>A planets payload whose one planet has a name and nothing else.\<close>

definition bare_planets :: "(string \<times> json) list" where
  "bare_planets = [(''planets'', JObj [(''7'', JObj [(''name'', JStr ''Heeth'')])])]"



section \<open>The transaction: commit or roll back\<close>

lemma run_append:
  "run eng (as @ bs) s =
     (case run eng as s of (None, s') \<Rightarrow> run eng bs s' | (Some e, s') \<Rightarrow> (Some e, s'))"
proof (induction as arbitrary: s)
  case Nil
  show ?case by simp
next
  case (Cons a as)
  show ?case
  proof (cases a)
    case (Execute q)
    then show ?thesis using Cons by (simp split: option.split)
  next
    case Commit
    then show ?thesis using Cons by simp
  next
    case (Log l)
    then show ?thesis using Cons by simp
  qed
qed

lemma run_no_commit:
  "Commit \<notin> set as \<Longrightarrow> committed (snd (run eng as s)) = committed s"
proof (induction as arbitrary: s)
  case Nil
  show ?case by simp
next
  case (Cons a as)
  then show ?case by (cases a) (auto split: option.split)
qed

lemma for_each_actions:
  "a \<in> set (fst (for_each body xs)) \<Longrightarrow> \<exists>x q. x \<in> set xs \<and> body x = Inr q \<and> a = Execute q"
proof (induction xs)
  case Nil
  then show ?case by simp
next
  case (Cons x xs)
  then show ?case
    by (auto simp: then_trace_def split: sum.splits option.splits)
qed

lemma set_then_trace:
  "set (fst (then_trace a b)) \<subseteq> set (fst a) \<union> set (fst b)"
  by (auto simp: then_trace_def split: option.splits)

lemma for_each_no_commit: "Commit \<notin> set (fst (for_each body xs))"
  using for_each_actions by fastforce

lemma loop_no_commit:
  "Commit \<notin> set (fst (then_trace (for_each body xs) ([Log l], None)))"
  using set_then_trace [of "for_each body xs" "([Log l], None)"] for_each_no_commit [of body xs]
  by auto

lemma store_status_no_commit: "Commit \<notin> set (fst (store_status data))"
  unfolding store_status_def
  by (simp add: loop_no_commit split: option.split sum.split)

lemma store_info_no_commit: "Commit \<notin> set (fst (store_info data))"
  unfolding store_info_def
  by (simp add: loop_no_commit split: option.split sum.split)

lemma store_news_no_commit: "Commit \<notin> set (fst (store_news data))"
  unfolding store_news_def
  by (simp add: loop_no_commit split: option.split sum.split)

lemma store_campaign_no_commit: "Commit \<notin> set (fst (store_campaign data))"
  unfolding store_campaign_def
  by (simp add: loop_no_commit split: option.split sum.split)

lemma store_major_orders_no_commit: "Commit \<notin> set (fst (store_major_orders data))"
  unfolding store_major_orders_def
  by (simp add: loop_no_commit split: option.split sum.split)

lemma store_planets_no_commit: "Commit \<notin> set (fst (store_planets data))"
  unfolding store_planets_def
  by (simp add: loop_no_commit split: option.split sum.split)

lemma then_trace_no_commit:
  "Commit \<notin> set (fst a) \<Longrightarrow> Commit \<notin> set (fst b) \<Longrightarrow> Commit \<notin> set (fst (then_trace a b))"
  using set_then_trace [of a b] by auto

lemma upserts_no_commit: "Commit \<notin> set (fst (upserts data))"
  unfolding upserts_def
  by (intro then_trace_no_commit store_status_no_commit store_info_no_commit
      store_news_no_commit store_campaign_no_commit store_major_orders_no_commit
      store_planets_no_commit)

lemma statements_no_commit: "Commit \<notin> set (fst (statements data))"
  unfolding statements_def
  by (intro then_trace_no_commit upserts_no_commit) (simp add: create_tables_def)

text \<open>The \<open>try\<close> block is its statements, then the commit and the closing record.\<close>

lemma perform_try_block:
  "perform eng (try_block data) s =
     (case perform eng (statements data) s of
        (Some e, s') \<Rightarrow> (Some e, s')
      | (None, s') \<Rightarrow>
          if commit_raises eng then (Some DatabaseError, s')
          else (None, s'\<lparr>committed := pending s',
                         journal := journal s' @ [INFO ''All data stored successfully.'']\<rparr>))"
  by (auto simp: try_block_def perform_def then_trace_def run_append
      split: option.split prod.split)

lemma perform_statements_committed:
  "committed (snd (perform eng (statements data) s)) = committed s"
  using run_no_commit [OF statements_no_commit, of eng data s]
  by (auto simp: perform_def split: prod.split option.split)

lemma try_block_raises_committed:
  assumes "fst (perform eng (try_block data) s) = Some e"
  shows "committed (snd (perform eng (try_block data) s)) = committed s"
  using assms perform_statements_committed [of eng data s]
  by (auto simp: perform_try_block split: prod.splits option.splits if_splits)

lemma connect_committed: "connect eng db = Inr conn \<Longrightarrow> committed conn = db"
  by (auto simp: connect_def session_on_def split: if_splits)

text \<open>
  C1. Whenever an exception is raised inside the \<open>try\<close> block of \<open>store_data\<close> (by a
  \<open>CREATE TABLE\<close>, by an upsert or the Python code that builds its parameters, or by
  \<open>commit\<close>), nothing of the run is persisted: the database after the call is the
  database before it, and the run does not count as committed.
\<close>

theorem store_data_rolls_back:
  assumes "connect eng db = Inr conn"
    and "fst (perform eng (try_block data) conn) = Some e"
  shows "store (store_data eng db data) = db
         \<and> ending (store_data eng db data) \<noteq> Committed"
proof -
  have c: "committed conn = db"
    using assms(1) by (rule connect_committed)
  obtain s where p: "perform eng (try_block data) conn = (Some e, s)"
    using assms(2) by (cases "perform eng (try_block data) conn") auto
  have "committed s = db"
    using try_block_raises_committed [OF assms(2)] p c by simp
  then show ?thesis
    using assms(1) p by (auto simp: store_data_def rollback_def)
qed

text \<open>
  The run on \<open>half_bad_status\<close>: the first planet's row is written to the pending copy,
  the second statement raises, and the database is left with no relation at all.
\<close>

theorem store_data_rolls_back_witness:
  "connect plain_engine no_tables = Inr (session_on no_tables)
   \<and> fst (perform plain_engine (try_block half_bad_status) (session_on no_tables))
       = Some DatabaseError
   \<and> cell (pending (snd (perform plain_engine (try_block half_bad_status)
                            (session_on no_tables)))) war_status 1 \<noteq> None
   \<and> store (store_data plain_engine no_tables half_bad_status) = no_tables
   \<and> ending (store_data plain_engine no_tables half_bad_status) \<noteq> Committed"
proof -
  have c: "connect plain_engine no_tables = Inr (session_on no_tables)"
    by (simp add: connect_def plain_engine_def)
  have e: "fst (perform plain_engine (try_block half_bad_status) (session_on no_tables))
             = Some DatabaseError"
    by code_simp
  have w: "cell (pending (snd (perform plain_engine (try_block half_bad_status)
                                 (session_on no_tables)))) war_status 1 \<noteq> None"
    by code_simp
  show ?thesis
    using c e w store_data_rolls_back [OF c e] by simp
qed

section \<open>The caller's view of a failed run\<close>

text \<open>
  C10. When \<open>psycopg2.connect\<close> raises, the handler of \<open>store_data\<close> reads \<open>conn\<close>
  before it was ever assigned: the call ends by raising \<open>UnboundLocalError\<close> to its
  caller, with nothing logged and the database as it was. Read backwards: a call that
  returns has had its connection.
\<close>

theorem store_data_without_connection:
  assumes "connect eng db = Inl e"
  shows "result (store_data eng db data) = Inl UnboundLocalError
         \<and> logged (store_data eng db data) = []
         \<and> store (store_data eng db data) = db"
  using assms by (simp add: store_data_def)

theorem store_data_without_connection_witness:
  "connect offline_engine no_tables = Inl DatabaseError
   \<and> result (store_data offline_engine no_tables half_bad_status) = Inl UnboundLocalError
   \<and> logged (store_data offline_engine no_tables half_bad_status) = []
   \<and> store (store_data offline_engine no_tables half_bad_status) = no_tables"
proof -
  have c: "connect offline_engine no_tables = Inl DatabaseError"
    by (simp add: connect_def offline_engine_def plain_engine_def)
  show ?thesis
    using c store_data_without_connection [OF c, of half_bad_status] by simp
qed

text \<open>
  C9, as stated, fails: a run that was rolled back and a run that was committed return
  the same value to the caller of \<open>store_data\<close>, and \<open>main\<close> closes the log of a
  rolled-back run with its record of success.
\<close>

theorem rolled_back_run_returns_like_committed_run:
  "ending (store_data plain_engine no_tables half_bad_status) = RolledBack
   \<and> ending (store_data plain_engine no_tables []) = Committed
   \<and> result (store_data plain_engine no_tables half_bad_status)
       = result (store_data plain_engine no_tables [])
   \<and> ending (main (transport_answering 200 (JInt 1)) plain_engine no_tables) = RolledBack
   \<and> result (main (transport_answering 200 (JInt 1)) plain_engine no_tables) = Inr ()
   \<and> last (logged (main (transport_answering 200 (JInt 1)) plain_engine no_tables))
       = INFO ''Pipeline finished successfully.''"
  by code_simp

lemma journal_perform_try_block:
  "fst (perform eng (try_block data) s) = None \<Longrightarrow>
   last (journal (snd (perform eng (try_block data) s))) = INFO ''All data stored successfully.''"
  by (auto simp: perform_try_block split: prod.splits option.splits if_splits)

text \<open>
  C9, amended. With a connection and a \<open>rollback\<close> that works, \<open>store_data\<close> returns
  \<open>None\<close> whatever happened; a schema or upsert error shows in the log only, where the
  last record of the call is the error record with its cause, while the last record of
  a committed run is the record of success.
\<close>

theorem store_data_failure_is_logged_not_returned:
  assumes "connect eng db = Inr conn" and "\<not> rollback_raises eng"
  shows "result (store_data eng db data) = Inr ()
         \<and> (case fst (perform eng (try_block data) conn) of
               Some e \<Rightarrow>
                 ending (store_data eng db data) = RolledBack
                 \<and> last (logged (store_data eng db data)) = ERROR_EXC ''Error storing data: '' e
             | None \<Rightarrow>
                 ending (store_data eng db data) = Committed
                 \<and> last (logged (store_data eng db data))
                     = INFO ''All data stored successfully.'')"
proof (cases "fst (perform eng (try_block data) conn)")
  case None
  then show ?thesis
    using assms journal_perform_try_block [OF None]
    by (auto simp: store_data_def split: prod.splits)
next
  case (Some e)
  then show ?thesis
    using assms by (auto simp: store_data_def rollback_def split: prod.splits)
qed

theorem store_data_failure_is_logged_not_returned_witness:
  "connect plain_engine no_tables = Inr (session_on no_tables)
   \<and> \<not> rollback_raises plain_engine
   \<and> result (store_data plain_engine no_tables half_bad_status) = Inr ()
   \<and> ending (store_data plain_engine no_tables half_bad_status) = RolledBack
   \<and> last (logged (store_data plain_engine no_tables half_bad_status))
       = ERROR_EXC ''Error storing data: '' DatabaseError"
proof -
  have c: "connect plain_engine no_tables = Inr (session_on no_tables)"
    by (simp add: connect_def plain_engine_def)
  have r: "\<not> rollback_raises plain_engine"
    by (simp add: plain_engine_def)
  have e: "fst (perform plain_engine (try_block half_bad_status) (session_on no_tables))
             = Some DatabaseError"
    by code_simp
  show ?thesis
    using c r e store_data_failure_is_logged_not_returned [OF c r, of half_bad_status]
    by simp
qed

section \<open>Fetching\<close>

text \<open>
  C5, as stated, fails: what \<open>fetch_json\<close> returns for a failed fetch is \<open>None\<close>, the
  same for another resource and another cause, and the same as for a body that is
  \<open>null\<close>; it carries neither key nor cause. And a status outside 2xx is no failure
  when it is outside 4xx and 5xx as well: a 300 answer, which \<open>requests\<close> does not
  follow and which has a body, is returned as parsed.
\<close>

theorem fetch_json_returns_bare_none:
  "result (fetch_json transport_down (API_BASE_URL @ ''/news'')) = Inr JNull
   \<and> result (fetch_json (transport_answering 404 (JStr ''gone'')) PLANETS_URL) = Inr JNull
   \<and> result (fetch_json (transport_answering 200 JNull) PLANETS_URL) = Inr JNull
   \<and> result (fetch_json (transport_answering 300 (JInt 7)) PLANETS_URL) = Inr (JInt 7)"
  by code_simp

text \<open>
  C5, amended. When the request raises a \<open>RequestException\<close> or the status is one of
  400 to 599, \<open>fetch_json\<close> returns \<open>None\<close> and raises nothing; the URL and the cause go
  to the log, in one error record. When the status is any other, 2xx or not, and the
  body parses, \<open>fetch_json\<close> returns the parsed body and logs the record of success: such
  a fetch is not treated as a failure.
\<close>

theorem fetch_json_failure_returns_none:
  "(http url = Inl RequestException
      \<or> (\<exists>r. http url = Inr r \<and> 400 \<le> status_code r \<and> status_code r < 600)
    \<longrightarrow> result (fetch_json http url) = Inr JNull
        \<and> logged (fetch_json http url)
            = [ERROR_EXC (''Error fetching data from '' @ url @ '': '') RequestException])
   \<and> (\<forall>r v. http url = Inr r \<and> \<not> (400 \<le> status_code r \<and> status_code r < 600)
              \<and> json_body r = Inr v
          \<longrightarrow> result (fetch_json http url) = Inr v
              \<and> logged (fetch_json http url)
                  = [INFO (''Successfully fetched data from '' @ url)])"
  by (auto simp: fetch_json_def fetch_failed_def raise_for_status_def)

theorem fetch_json_failure_returns_none_witness:
  "(transport_answering 404 (JStr ''gone'') PLANETS_URL = Inl RequestException
    \<or> (\<exists>r. transport_answering 404 (JStr ''gone'') PLANETS_URL = Inr r
            \<and> 400 \<le> status_code r \<and> status_code r < 600))
   \<and> result (fetch_json (transport_answering 404 (JStr ''gone'')) PLANETS_URL) = Inr JNull
   \<and> logged (fetch_json (transport_answering 404 (JStr ''gone'')) PLANETS_URL)
       = [ERROR_EXC (''Error fetching data from '' @ PLANETS_URL @ '': '') RequestException]
   \<and> transport_answering 300 (JInt 7) PLANETS_URL
       = Inr \<lparr>status_code = 300, json_body = Inr (JInt 7)\<rparr>
   \<and> result (fetch_json (transport_answering 300 (JInt 7)) PLANETS_URL) = Inr (JInt 7)
   \<and> logged (fetch_json (transport_answering 300 (JInt 7)) PLANETS_URL)
       = [INFO (''Successfully fetched data from '' @ PLANETS_URL)]"
proof -
  have h: "transport_answering 404 (JStr ''gone'') PLANETS_URL = Inl RequestException
           \<or> (\<exists>r. transport_answering 404 (JStr ''gone'') PLANETS_URL = Inr r
                   \<and> 400 \<le> status_code r \<and> status_code r < 600)"
    by (simp add: transport_answering_def)
  have g: "transport_answering 300 (JInt 7) PLANETS_URL
             = Inr \<lparr>status_code = 300, json_body = Inr (JInt 7)\<rparr>"
    by (simp add: transport_answering_def)
  have failed: "result (fetch_json (transport_answering 404 (JStr ''gone'')) PLANETS_URL)
                  = Inr JNull
                \<and> logged (fetch_json (transport_answering 404 (JStr ''gone'')) PLANETS_URL)
                    = [ERROR_EXC (''Error fetching data from '' @ PLANETS_URL @ '': '')
                         RequestException]"
    using h fetch_json_failure_returns_none
            [of "transport_answering 404 (JStr ''gone'')" PLANETS_URL]
    by blast
  have passed: "result (fetch_json (transport_answering 300 (JInt 7)) PLANETS_URL)
                  = Inr (JInt 7)
                \<and> logged (fetch_json (transport_answering 300 (JInt 7)) PLANETS_URL)
                    = [INFO (''Successfully fetched data from '' @ PLANETS_URL)]"
    using g fetch_json_failure_returns_none
            [of "transport_answering 300 (JInt 7)" PLANETS_URL]
    by simp
  show ?thesis
    using h g failed passed by blast
qed

section \<open>Upserts\<close>

text \<open>
  The \<open>SET\<close> list of every \<open>DO UPDATE\<close> clause has all the columns of its relation
  but the key, so that an update stores the row an insert would have stored.
\<close>

lemma on_conflict_covers:
  "on_conflict r = DO_UPDATE cs \<Longrightarrow> set (nonkey_columns r) \<subseteq> set cs"
  by (cases r) (auto simp: nonkey_columns_def)

lemma on_conflict_update: "r \<noteq> war_news \<Longrightarrow> \<exists>cs. on_conflict r = DO_UPDATE cs"
  by (cases r) simp_all

lemma updated_row_full:
  "set (nonkey_columns r) \<subseteq> set cs \<Longrightarrow> updated_row r cs ps old = inserted_row r ps"
  by (auto simp: updated_row_def inserted_row_def)

lemma column_inserted_row:
  "c \<in> set (nonkey_columns r) \<Longrightarrow> column (inserted_row r ps) c = excluded r ps c"
proof -
  have "map_of (map (\<lambda>c. (c, f c)) cs) c = (if c \<in> set cs then Some (f c) else None)"
    for f :: "string \<Rightarrow> param" and cs
    by (induction cs) auto
  then show "c \<in> set (nonkey_columns r) \<Longrightarrow> column (inserted_row r ps) c = excluded r ps c"
    by (simp add: column_def inserted_row_def)
qed

text \<open>
  On the level of one statement: an \<open>INSERT\<close> into any relation but \<open>war_news\<close> whose
  key is already there replaces the stored row by the proposed row in one step: the row
  now has every non-key column of the relation, each with the value the statement
  proposes, and nothing else of the database changes.
\<close>

lemma upsert_replaces_row:
  assumes "r \<noteq> war_news" and "d r = Some t" and "t k = Some old"
    and "key_of kv r ps = Some k"
  shows "apply_stmt kv (INSERT r ps) d = Some (d(r := Some (t(k \<mapsto> inserted_row r ps))))
         \<and> map fst (inserted_row r ps) = nonkey_columns r
         \<and> (\<forall>c \<in> set (nonkey_columns r). column (inserted_row r ps) c = excluded r ps c)"
proof -
  obtain cs where cs: "on_conflict r = DO_UPDATE cs"
    using on_conflict_update [OF assms(1)] by blast
  have "updated_row r cs ps old = inserted_row r ps"
    using on_conflict_covers [OF cs] by (rule updated_row_full)
  then have "apply_stmt kv (INSERT r ps) d = Some (d(r := Some (t(k \<mapsto> inserted_row r ps))))"
    using assms cs by simp
  moreover have "map fst (inserted_row r ps) = nonkey_columns r"
    by (simp add: inserted_row_def comp_def)
  ultimately show ?thesis
    using column_inserted_row by blast
qed

lemma upsert_replaces_row_at_planet_5:
  "war_status \<noteq> war_news
   \<and> two_planets war_status = Some rows_5_and_6
   \<and> rows_5_and_6 5 = Some (status_row 100)
   \<and> key_of integer_key war_status planet_5_params = Some 5
   \<and> apply_stmt integer_key (INSERT war_status planet_5_params) two_planets
       = Some (two_planets(war_status :=
                 Some (rows_5_and_6(5 \<mapsto> inserted_row war_status planet_5_params))))
   \<and> column (inserted_row war_status planet_5_params) ''health'' = Py (JInt 80)"
proof -
  have a: "war_status \<noteq> war_news"
    by simp
  have b: "two_planets war_status = Some rows_5_and_6"
    by (simp add: two_planets_def)
  have c: "rows_5_and_6 5 = Some (status_row 100)"
    by (simp add: rows_5_and_6_def)
  have k: "key_of integer_key war_status planet_5_params = Some 5"
    by code_simp
  have h: "''health'' \<in> set (nonkey_columns war_status)"
    by code_simp
  have e: "excluded war_status planet_5_params ''health'' = Py (JInt 80)"
    by code_simp
  show ?thesis
    using a b c k h e
      upsert_replaces_row [where r = war_status and d = two_planets and t = rows_5_and_6
        and k = 5 and old = "status_row 100" and kv = integer_key and ps = planet_5_params]
    by simp
qed

text \<open>
  The example of the specification, through \<open>store_data\<close>: planet 5 had health 100 and planet 6
  health 70; after a run whose payload has planet 5 with health 80, planet 5 has the row
  of the payload and planet 6 the row it had.
\<close>

lemma reingest_planet_5:
  "stored_column two_planets war_status 5 ''health'' = Some (Py (JInt 100))
   \<and> stored_column (store (store_data plain_engine two_planets planet_5_status))
        war_status 5 ''health'' = Some (Py (JInt 80))
   \<and> cell (store (store_data plain_engine two_planets planet_5_status)) war_status 5
       = Some (inserted_row war_status planet_5_params)
   \<and> cell (store (store_data plain_engine two_planets planet_5_status)) war_status 6
       = Some (status_row 70)"
  by code_simp

section \<open>The parameter builders against the rows of the payload\<close>

lemma as_dict_Inr: "as_dict v = Inr d \<longleftrightarrow> v = JObj d"
  by (cases v) auto

lemma field_1: "field (JObj d) [k] = get d k"
  by (simp add: field_def get_def get_or_def split: option.split)

lemma field_or_1: "field_or (JObj d) [k] v = get_or d k v"
  by (simp add: field_or_def get_or_def split: option.split)

lemma field_2:
  assumes "as_dict (get_or d k (JObj [])) = Inr d'"
  shows "field (JObj d) (k # k' # ks) = field (JObj d') (k' # ks)"
proof (cases "map_of d k")
  case None
  then have "d' = []"
    using assms by (simp add: get_or_def)
  then show ?thesis
    using None by (simp add: field_def)
next
  case (Some w)
  then have "w = JObj d'"
    using assms by (simp add: get_or_def as_dict_Inr)
  then show ?thesis
    using Some by (simp add: field_def)
qed

lemma status_params_expected:
  assumes "status_params st item = Inr ps"
  shows "ps = expected_params war_status (keyed ''index'' (JObj st) item)"
proof -
  obtain s where s: "item = JObj s"
    using assms by (cases item) (auto simp: status_params_def)
  have "ps = [Py (get s ''index''), Py (get s ''owner''), Py (get s ''health''),
               Py (get s ''regenPerSecond''), Py (get s ''players''), Py (get st ''warId''),
               Py (get st ''time''), Py (get st ''impactMultiplier''),
               Py (get st ''storyBeatId32'')]"
    using assms by (simp add: status_params_def s)
  then show ?thesis
    by (simp add: expected_params_def keyed_def expected_column_def s field_1)
qed


lemma info_params_expected:
  assumes "info_params hdr item = Inr ps"
  shows "ps = expected_params war_info (keyed ''index'' (JObj hdr) item)"
proof -
  obtain i where i: "item = JObj i"
    using assms by (cases item) (auto simp: info_params_def)
  obtain position where pos: "as_dict (get_or i ''position'' (JObj [])) = Inr position"
    using assms unfolding i by (auto simp: info_params_def split: sum.splits)
  have "ps = [Py (get i ''index''), Py (get i ''settingsHash''),
                  Py (get position ''x''), Py (get position ''y''),
                  Py (get_or i ''waypoints'' (JArr [])),
                  Py (get i ''sector''), Py (get i ''maxHealth''), Py (get i ''disabled''),
                  Py (get i ''initialOwner''), Py (get hdr ''warId''),
                  Py (get hdr ''startDate''), Py (get hdr ''endDate''),
                  Py (get hdr ''minimumClientVersion'')]"
    using assms pos by (simp add: info_params_def i)
  then show ?thesis
    by (simp add: expected_params_def keyed_def expected_column_def i field_1 field_or_1
        field_2 [OF pos])
qed

lemma news_params_expected:
  assumes "news_params item = Inr ps"
  shows "ps = expected_params war_news (keyed ''id'' JNull item)"
proof -
  obtain n where n: "item = JObj n"
    using assms by (cases item) (auto simp: news_params_def)
  have "ps = [Py (get n ''id''), Py (get n ''published''), Py (get n ''type''),
              Py (get n ''tagIds''), Py (get n ''message'')]"
    using assms by (simp add: news_params_def n)
  then show ?thesis
    by (simp add: expected_params_def keyed_def expected_column_def n field_1)
qed

lemma campaign_params_expected:
  assumes "campaign_params item = Inr ps"
  shows "ps = expected_params war_campaign (keyed ''planetIndex'' JNull item)"
proof -
  obtain c where c: "item = JObj c"
    using assms by (cases item) (auto simp: campaign_params_def)
  obtain biome where b: "as_dict (get_or c ''biome'' (JObj [])) = Inr biome"
    using assms unfolding c by (auto simp: campaign_params_def split: sum.splits)
  have "ps = [Py (get c ''planetIndex''), Py (get c ''name''), Py (get c ''faction''),
              Py (get c ''players''), Py (get c ''health''), Py (get c ''maxHealth''),
              Py (get c ''percentage''), Py (get c ''defense''),
              Py (get c ''majorOrder''), Py (get biome ''slug''),
              Py (get biome ''description''), Py (get c ''expireDateTime'')]"
    using assms b by (simp add: campaign_params_def c)
  then show ?thesis
    by (simp add: expected_params_def keyed_def expected_column_def c field_1 field_2 [OF b])
qed

lemma order_params_expected:
  assumes "order_params item = Inr ps"
  shows "ps = expected_params war_major_orders (keyed ''id32'' JNull item)"
proof -
  obtain od where od: "item = JObj od"
    using assms by (cases item) (auto simp: order_params_def)
  obtain setting where st: "as_dict (get_or od ''setting'' (JObj [])) = Inr setting"
    using assms unfolding od by (auto simp: order_params_def split: sum.splits)
  obtain reward where rw: "as_dict (get_or setting ''reward'' (JObj [])) = Inr reward"
    using assms st unfolding od by (auto simp: order_params_def split: sum.splits)
  have "ps = [Py (get od ''id32''), Py (get od ''progress''),
              Py (get od ''expiresIn''), Py (get setting ''type''),
              Py (get setting ''overrideTitle''), Py (get setting ''overrideBrief''),
              Py (get setting ''taskDescription''), Dumps (get setting ''tasks''),
              Py (get reward ''type''), Py (get reward ''id32''),
              Py (get reward ''amount''), Py (get setting ''flags'')]"
    using assms st rw by (simp add: order_params_def od)
  then show ?thesis
    by (simp add: expected_params_def keyed_def expected_column_def od field_1
        field_2 [OF st] field_2 [OF rw])
qed

lemma planet_params_expected:
  assumes "planet_params item = Inr ps"
  shows "ps = expected_params planets (planet_record item)"
proof -
  obtain planet where p: "snd item = JObj planet"
    using assms by (cases "snd item") (auto simp: planet_params_def)
  obtain n where n: "py_int (fst item) = Inr n"
    using assms p by (auto simp: planet_params_def split: sum.splits)
  obtain biome where b: "as_dict (get_or planet ''biome'' (JObj [])) = Inr biome"
    using assms p n by (auto simp: planet_params_def split: sum.splits)
  have "ps = [Py (JInt n), Py (get planet ''name''),
              Py (get planet ''sector''), Py (get biome ''slug''),
              Py (get biome ''description''),
              Dumps (get_or planet ''environmentals'' (JArr []))]"
    using assms b n by (simp add: planet_params_def p)
  then show ?thesis
    by (simp add: expected_params_def planet_record_def expected_column_def p n field_1
        field_or_1 field_2 [OF b])
qed

section \<open>The statements of a run that raises nothing in Python\<close>

lemma stmts_of_append: "stmts_of (as @ bs) = stmts_of as @ stmts_of bs"
  by (induction as rule: stmts_of.induct) simp_all

lemma stmts_of_Execute: "stmts_of (map Execute qs) = qs"
  by (induction qs) simp_all

lemma snd_then_trace: "snd (then_trace a b) = None \<longleftrightarrow> snd a = None \<and> snd b = None"
  by (auto simp: then_trace_def split: option.splits)

lemma fst_then_trace: "snd a = None \<Longrightarrow> fst (then_trace a b) = fst a @ fst b"
  by (simp add: then_trace_def)

lemma for_each_stmts:
  assumes "\<And>x q. body x = Inr q \<Longrightarrow> q = g x"
    and "snd (for_each body xs) = None"
  shows "stmts_of (fst (for_each body xs)) = map g xs \<and> (\<forall>x \<in> set xs. \<exists>q. body x = Inr q)"
  using assms(2)
proof (induction xs)
  case Nil
  show ?case by simp
next
  case (Cons x xs)
  from Cons.prems obtain q where q: "body x = Inr q"
    by (cases "body x") auto
  then have rest: "snd (for_each body xs) = None"
    using Cons.prems by (simp add: snd_then_trace)
  have "q = g x"
    using q by (rule assms(1))
  then show ?case
    using q Cons.IH [OF rest] by (simp add: fst_then_trace stmts_of_append)
qed

lemma iter_objects:
  assumes "py_iter w = Inr xs" and "\<forall>x \<in> set xs. \<exists>d. x = JObj d"
  shows "xs = elements w"
proof (cases w)
  case (JObj kvs)
  then have "kvs = []"
    using assms by (cases kvs) auto
  then show ?thesis
    using assms JObj by simp
next
  case (JStr s)
  then have "s = []"
    using assms by (cases s) auto
  then show ?thesis
    using assms JStr by simp
qed (use assms in auto)

lemma falsy_field: "\<not> truthy v \<Longrightarrow> field v (k # ks) = JNull"
  by (cases v) (simp_all add: field_def)

lemma loop_stmts:
  assumes "\<And>x ps. build x = Inr ps \<Longrightarrow> ps = expected_params r (mk x) \<and> (\<exists>d. x = JObj d)"
    and "snd (then_trace (for_each (\<lambda>x. insert_into r (build x)) xs) ([Log l], None)) = None"
  shows "stmts_of (fst (then_trace (for_each (\<lambda>x. insert_into r (build x)) xs) ([Log l], None)))
           = map (\<lambda>x. INSERT r (expected_params r (mk x))) xs
         \<and> (\<forall>x \<in> set xs. \<exists>d. x = JObj d)"
proof -
  let ?body = "\<lambda>x. insert_into r (build x)"
  have ok: "snd (for_each ?body xs) = None"
    using assms(2) by (simp add: snd_then_trace)
  have g: "q = INSERT r (expected_params r (mk x))" if "?body x = Inr q" for x q
    using that assms(1) [of x] by (auto simp: insert_into_def split: sum.splits)
  have "stmts_of (fst (for_each ?body xs)) = map (\<lambda>x. INSERT r (expected_params r (mk x))) xs
        \<and> (\<forall>x \<in> set xs. \<exists>q. ?body x = Inr q)"
    using g ok by (rule for_each_stmts)
  moreover have "\<exists>d. x = JObj d" if "?body x = Inr q" for x q
    using that assms(1) [of x] by (auto simp: insert_into_def split: sum.splits)
  ultimately show ?thesis
    using ok by (auto simp: fst_then_trace stmts_of_append)
qed


lemma iter_default:
  assumes "py_iter (get_or st k (JArr [])) = Inr xs" and "\<forall>x \<in> set xs. \<exists>d. x = JObj d"
  shows "xs = elements (field (JObj st) [k])"
proof (cases "map_of st k")
  case None
  then show ?thesis
    using assms(1) by (simp add: get_or_def field_def)
next
  case (Some w)
  then have "py_iter w = Inr xs"
    using assms(1) by (simp add: get_or_def)
  then have "xs = elements w"
    using assms(2) by (rule iter_objects)
  then show ?thesis
    using Some by (simp add: field_def)
qed

lemma enveloped_section:
  assumes shape: "sec =
      (case map_of data key of
         None \<Rightarrow> ([], None)
       | Some v \<Rightarrow>
           if \<not> truthy v then ([], None)
           else (case as_dict v of
                   Inl e \<Rightarrow> ([], Some e)
                 | Inr st \<Rightarrow>
                     (case py_iter (get_or st lst (JArr [])) of
                        Inl e \<Rightarrow> ([], Some e)
                      | Inr xs \<Rightarrow>
                          then_trace (for_each (\<lambda>x. insert_into r (build st x)) xs)
                            ([Log l], None))))"
    and build: "\<And>st x ps. build st x = Inr ps \<Longrightarrow>
                 ps = expected_params r (keyed kf (JObj st) x) \<and> (\<exists>d. x = JObj d)"
    and ok: "snd sec = None"
  shows "stmts_of (fst sec)
           = map (\<lambda>rec. INSERT r (expected_params r rec))
               (map (keyed kf (resource data key))
                  (elements (field (resource data key) [lst])))"
proof (cases "map_of data key")
  case None
  then show ?thesis
    by (simp add: shape resource_def field_def)
next
  case (Some v)
  show ?thesis
  proof (cases "truthy v")
    case False
    then show ?thesis
      using Some by (simp add: shape resource_def falsy_field)
  next
    case True
    obtain st where st: "v = JObj st"
      using ok Some True by (cases v) (auto simp: shape)
    obtain xs where xs: "py_iter (get_or st lst (JArr [])) = Inr xs"
      using ok Some True st by (cases "py_iter (get_or st lst (JArr []))") (auto simp: shape)
    have tr: "sec = then_trace (for_each (\<lambda>x. insert_into r (build st x)) xs) ([Log l], None)"
      using Some True st xs by (simp add: shape)
    have loop: "stmts_of (fst sec) = map (\<lambda>x. INSERT r (expected_params r (keyed kf (JObj st) x))) xs
                \<and> (\<forall>x \<in> set xs. \<exists>d. x = JObj d)"
      unfolding tr by (rule loop_stmts [OF build]) (use ok tr in simp_all)
    then have "xs = elements (field (JObj st) [lst])"
      using xs by (simp add: iter_default)
    then show ?thesis
      using loop Some st by (simp add: resource_def comp_def)
  qed
qed

lemma listed_section:
  assumes shape: "sec =
      (case map_of data key of
         None \<Rightarrow> ([], None)
       | Some v \<Rightarrow>
           if \<not> truthy v then ([], None)
           else (case py_iter v of
                   Inl e \<Rightarrow> ([], Some e)
                 | Inr xs \<Rightarrow>
                     then_trace (for_each (\<lambda>x. insert_into r (build x)) xs)
                       ([Log l], None)))"
    and build: "\<And>x ps. build x = Inr ps \<Longrightarrow>
                 ps = expected_params r (keyed kf JNull x) \<and> (\<exists>d. x = JObj d)"
    and ok: "snd sec = None"
  shows "stmts_of (fst sec)
           = map (\<lambda>rec. INSERT r (expected_params r rec))
               (map (keyed kf JNull) (elements (resource data key)))"
proof (cases "map_of data key")
  case None
  then show ?thesis
    by (simp add: shape resource_def)
next
  case (Some v)
  show ?thesis
  proof (cases "truthy v")
    case False
    then have "elements v = []"
      by (cases v) auto
    then show ?thesis
      using Some False by (simp add: shape resource_def)
  next
    case True
    obtain xs where xs: "py_iter v = Inr xs"
      using ok Some True by (cases "py_iter v") (auto simp: shape)
    have tr: "sec = then_trace (for_each (\<lambda>x. insert_into r (build x)) xs) ([Log l], None)"
      using Some True xs by (simp add: shape)
    have loop: "stmts_of (fst sec) = map (\<lambda>x. INSERT r (expected_params r (keyed kf JNull x))) xs
                \<and> (\<forall>x \<in> set xs. \<exists>d. x = JObj d)"
      unfolding tr by (rule loop_stmts [OF build]) (use ok tr in simp_all)
    then have "xs = elements v"
      using xs by (simp add: iter_objects)
    then show ?thesis
      using loop Some by (simp add: resource_def comp_def)
  qed
qed


lemma params_object:
  "status_params st x = Inr ps \<Longrightarrow> \<exists>d. x = JObj d"
  "info_params st x = Inr ps \<Longrightarrow> \<exists>d. x = JObj d"
  "news_params x = Inr ps \<Longrightarrow> \<exists>d. x = JObj d"
  "campaign_params x = Inr ps \<Longrightarrow> \<exists>d. x = JObj d"
  "order_params x = Inr ps \<Longrightarrow> \<exists>d. x = JObj d"
  by (cases x; simp add: status_params_def info_params_def news_params_def
      campaign_params_def order_params_def)+

lemma store_status_stmts:
  assumes "snd (store_status data) = None"
  shows "stmts_of (fst (store_status data)) = payload_stmts data war_status"
proof -
  have "stmts_of (fst (store_status data))
          = map (\<lambda>rec. INSERT war_status (expected_params war_status rec))
              (map (keyed ''index'' (resource data ''status''))
                 (elements (field (resource data ''status'') [''planetStatus''])))"
    by (rule enveloped_section [where build = status_params, OF store_status_def _ assms])
      (simp add: status_params_expected params_object)
  then show ?thesis
    by (simp add: payload_stmts_def)
qed

lemma store_info_stmts:
  assumes "snd (store_info data) = None"
  shows "stmts_of (fst (store_info data)) = payload_stmts data war_info"
proof -
  have "stmts_of (fst (store_info data))
          = map (\<lambda>rec. INSERT war_info (expected_params war_info rec))
              (map (keyed ''index'' (resource data ''info''))
                 (elements (field (resource data ''info'') [''planetInfos''])))"
    by (rule enveloped_section [where build = info_params, OF store_info_def _ assms])
      (simp add: info_params_expected params_object)
  then show ?thesis
    by (simp add: payload_stmts_def)
qed

lemma store_news_stmts:
  assumes "snd (store_news data) = None"
  shows "stmts_of (fst (store_news data)) = payload_stmts data war_news"
proof -
  have "stmts_of (fst (store_news data))
          = map (\<lambda>rec. INSERT war_news (expected_params war_news rec))
              (map (keyed ''id'' JNull) (elements (resource data ''news'')))"
    by (rule listed_section [where build = news_params, OF store_news_def _ assms])
      (simp add: news_params_expected params_object)
  then show ?thesis
    by (simp add: payload_stmts_def)
qed

lemma store_campaign_stmts:
  assumes "snd (store_campaign data) = None"
  shows "stmts_of (fst (store_campaign data)) = payload_stmts data war_campaign"
proof -
  have "stmts_of (fst (store_campaign data))
          = map (\<lambda>rec. INSERT war_campaign (expected_params war_campaign rec))
              (map (keyed ''planetIndex'' JNull) (elements (resource data ''campaign'')))"
    by (rule listed_section [where build = campaign_params, OF store_campaign_def _ assms])
      (simp add: campaign_params_expected params_object)
  then show ?thesis
    by (simp add: payload_stmts_def)
qed

lemma store_major_orders_stmts:
  assumes "snd (store_major_orders data) = None"
  shows "stmts_of (fst (store_major_orders data)) = payload_stmts data war_major_orders"
proof -
  have "stmts_of (fst (store_major_orders data))
          = map (\<lambda>rec. INSERT war_major_orders (expected_params war_major_orders rec))
              (map (keyed ''id32'' JNull) (elements (resource data ''major_orders'')))"
    by (rule listed_section [where build = order_params, OF store_major_orders_def _ assms])
      (simp add: order_params_expected params_object)
  then show ?thesis
    by (simp add: payload_stmts_def)
qed

lemma store_planets_stmts:
  assumes "snd (store_planets data) = None"
  shows "stmts_of (fst (store_planets data)) = payload_stmts data planets"
proof (cases "map_of data ''planets''")
  case None
  then show ?thesis
    by (simp add: store_planets_def payload_stmts_def resource_def)
next
  case (Some v)
  show ?thesis
  proof (cases "truthy v")
    case False
    then have "(case v of JObj kvs \<Rightarrow> map planet_record kvs | _ \<Rightarrow> []) = []"
      by (cases v) auto
    then show ?thesis
      using Some False by (simp add: store_planets_def payload_stmts_def resource_def)
  next
    case True
    obtain items where items: "v = JObj items"
      using assms Some True by (cases v) (auto simp: store_planets_def)
    let ?body = "\<lambda>item. insert_into planets (planet_params item)"
    have tr: "store_planets data
                = then_trace (for_each ?body items)
                    ([Log (INFO ''Stored planets data successfully.'')], None)"
      using Some True items by (simp add: store_planets_def)
    then have ok: "snd (for_each ?body items) = None"
      using assms by (simp add: snd_then_trace)
    have g: "q = INSERT planets (expected_params planets (planet_record x))"
      if "?body x = Inr q" for x q
      using that planet_params_expected [of x]
      by (auto simp: insert_into_def split: sum.splits)
    have "stmts_of (fst (for_each ?body items))
            = map (\<lambda>x. INSERT planets (expected_params planets (planet_record x))) items
          \<and> (\<forall>x \<in> set items. \<exists>q. ?body x = Inr q)"
      using g ok by (rule for_each_stmts)
    then show ?thesis
      using ok Some items
      by (simp add: tr fst_then_trace stmts_of_append payload_stmts_def resource_def comp_def)
  qed
qed

lemma upserts_stmts:
  assumes "snd (upserts data) = None"
  shows "stmts_of (fst (upserts data)) = all_payload_stmts data"
proof -
  have ok: "snd (store_status data) = None" "snd (store_info data) = None"
    "snd (store_news data) = None" "snd (store_campaign data) = None"
    "snd (store_major_orders data) = None" "snd (store_planets data) = None"
    using assms by (simp_all add: upserts_def snd_then_trace)
  show ?thesis
    using ok
    by (simp add: upserts_def fst_then_trace snd_then_trace stmts_of_append
        all_payload_stmts_def store_status_stmts store_info_stmts store_news_stmts
        store_campaign_stmts store_major_orders_stmts store_planets_stmts)
qed

section \<open>What a committed run stores\<close>

lemma cell_apply_stmt:
  assumes "apply_stmt kv q d = Some d'"
  shows "cell d' r k = effect kv q r k (cell d r k)"
proof (cases q)
  case (CREATE_TABLE r')
  then show ?thesis
    using assms by (auto simp: cell_def split: option.splits if_splits)
next
  case (INSERT r' ps)
  then show ?thesis
    using assms
    by (auto simp: cell_def split: option.splits conflict.splits if_splits)
qed

lemma exists_apply_stmt:
  assumes "apply_stmt kv q d = Some d'"
  shows "d' r = None \<longleftrightarrow> d r = None \<and> q \<noteq> CREATE_TABLE r"
proof (cases q)
  case (CREATE_TABLE r')
  then show ?thesis
    using assms by (auto split: option.splits if_splits)
next
  case (INSERT r' ps)
  then show ?thesis
    using assms by (auto split: option.splits conflict.splits if_splits)
qed

lemma run_pending:
  assumes "run eng as s = (None, s')"
  shows "cell (pending s') r k = effects (key_value eng) (stmts_of as) r k (cell (pending s) r k)
         \<and> (pending s' r = None \<longleftrightarrow> pending s r = None \<and> CREATE_TABLE r \<notin> set (stmts_of as))"
  using assms
proof (induction as arbitrary: s)
  case Nil
  then show ?case by simp
next
  case (Cons a as)
  show ?case
  proof (cases a)
    case (Execute q)
    with Cons.prems obtain d where d: "apply_stmt (key_value eng) q (pending s) = Some d"
      and rest: "run eng as (s\<lparr>pending := d, executed := Suc (executed s)\<rparr>) = (None, s')"
      by (auto split: if_splits option.splits)
    show ?thesis
      using Cons.IH [OF rest] cell_apply_stmt [OF d, of r k] exists_apply_stmt [OF d, of r]
        Execute
      by auto
  next
    case Commit
    with Cons.prems have rest: "run eng as (s\<lparr>committed := pending s\<rparr>) = (None, s')"
      by (auto split: if_splits)
    show ?thesis
      using Cons.IH [OF rest] Commit by simp
  next
    case (Log l)
    with Cons.prems have rest: "run eng as (s\<lparr>journal := journal s @ [l]\<rparr>) = (None, s')"
      by simp
    show ?thesis
      using Cons.IH [OF rest] Log by simp
  qed
qed

lemma effects_append: "effects kv (qs @ qs') r k v = effects kv qs' r k (effects kv qs r k v)"
  by (induction qs arbitrary: v) simp_all

lemma effect_other: "\<not> targets kv q r k \<Longrightarrow> effect kv q r k v = v"
  by (cases q) auto

lemma effects_other: "\<forall>q \<in> set qs. \<not> targets kv q r k \<Longrightarrow> effects kv qs r k v = v"
  by (induction qs arbitrary: v) (simp_all add: effect_other)


lemma map_of_zip_map:
  "map_of (zip xs (map f xs)) x = (if x \<in> set xs then Some (f x) else None)"
  by (induction xs) auto

lemma key_in_insert_columns: "primary_key r \<in> set (insert_columns r)"
  by (cases r) simp_all

lemma nonkey_in_insert_columns: "c \<in> set (nonkey_columns r) \<Longrightarrow> c \<in> set (insert_columns r)"
  by (cases r) (auto simp: nonkey_columns_def)

lemma nonkey_not_key: "c \<in> set (nonkey_columns r) \<Longrightarrow> c \<noteq> primary_key r"
  by (simp add: nonkey_columns_def)

lemma key_of_expected: "key_of kv r (expected_params r rec) = param_key kv (fst rec)"
  by (simp add: key_of_def excluded_def expected_params_def map_of_zip_map
      key_in_insert_columns param_key_def)

lemma inserted_row_expected:
  "inserted_row r (expected_params r (kp, envelope, item)) = expected_row r envelope item"
  by (simp add: inserted_row_def expected_row_def excluded_def expected_params_def
      map_of_zip_map nonkey_in_insert_columns nonkey_not_key)

lemma targets_payload_stmts:
  "q \<in> set (payload_stmts data r') \<Longrightarrow> r' \<noteq> r \<Longrightarrow> \<not> targets kv q r k"
  by (auto simp: payload_stmts_def)

lemma effects_payload_other:
  "r' \<noteq> r \<Longrightarrow> effects kv (payload_stmts data r') r k v = v"
  by (rule effects_other) (simp add: targets_payload_stmts)

lemma effects_all_payload_stmts:
  "effects kv (all_payload_stmts data) r k v = effects kv (payload_stmts data r) r k v"
  by (cases r) (simp_all add: all_payload_stmts_def effects_append effects_payload_other)

lemma stmts_of_statements:
  assumes "snd (statements data) = None"
  shows "stmts_of (fst (statements data))
           = [CREATE_TABLE war_status, CREATE_TABLE war_info, CREATE_TABLE war_news,
              CREATE_TABLE war_campaign, CREATE_TABLE war_major_orders, CREATE_TABLE planets]
             @ all_payload_stmts data"
proof -
  have "snd (upserts data) = None"
    using assms by (simp add: statements_def snd_then_trace)
  then show ?thesis
    by (simp add: statements_def fst_then_trace create_tables_def stmts_of_append upserts_stmts)
qed

lemma committed_run:
  assumes "ending (store_data eng db data) = Committed"
  shows "\<exists>s'. run eng (fst (statements data)) (session_on db) = (None, s')
              \<and> snd (statements data) = None
              \<and> store (store_data eng db data) = pending s'"
proof -
  have c: "connect eng db = Inr (session_on db)"
    using assms by (auto simp: store_data_def connect_def split: if_splits)
  obtain s where s: "perform eng (try_block data) (session_on db) = (None, s)"
    and st: "store (store_data eng db data) = committed s"
    using assms c
    by (auto simp: store_data_def split: prod.splits option.splits sum.splits)
  obtain s' where s': "perform eng (statements data) (session_on db) = (None, s')"
    and "committed s = pending s'"
    using s by (auto simp: perform_try_block split: prod.splits option.splits if_splits)
  then show ?thesis
    using st by (auto simp: perform_def split: prod.splits option.splits)
qed

lemma committed_cell:
  assumes "ending (store_data eng db data) = Committed"
  shows "cell (store (store_data eng db data)) r k
           = effects (key_value eng) (payload_stmts data r) r k (cell db r k)"
    and "store (store_data eng db data) r \<noteq> None"
proof -
  obtain s' where run: "run eng (fst (statements data)) (session_on db) = (None, s')"
    and ok: "snd (statements data) = None"
    and st: "store (store_data eng db data) = pending s'"
    using committed_run [OF assms] by blast
  have p: "pending (session_on db) = db"
    by (simp add: session_on_def)
  show "cell (store (store_data eng db data)) r k
           = effects (key_value eng) (payload_stmts data r) r k (cell db r k)"
    using run_pending [OF run, of r k]
    by (simp add: st p stmts_of_statements [OF ok] effects_all_payload_stmts)
  show "store (store_data eng db data) r \<noteq> None"
    using run_pending [OF run, of r k]
    by (cases r) (simp_all add: st p stmts_of_statements [OF ok])
qed

section \<open>Upserts through store_data\<close>

lemma effect_upsert:
  assumes "r \<noteq> war_news" and "key_of kv r ps = Some k"
  shows "effect kv (INSERT r ps) r k v = Some (inserted_row r ps)"
proof -
  obtain cs where cs: "on_conflict r = DO_UPDATE cs"
    using on_conflict_update [OF assms(1)] by blast
  have "updated_row r cs ps old = inserted_row r ps" for old
    using on_conflict_covers [OF cs] by (rule updated_row_full)
  then show ?thesis
    using assms(2) cs by (simp split: option.split)
qed

lemma column_expected_row:
  "c \<in> set (nonkey_columns r) \<Longrightarrow>
   column (expected_row r envelope item) c = expected_column r envelope item c"
proof -
  have "map_of (map (\<lambda>c. (c, f c)) cs) c = (if c \<in> set cs then Some (f c) else None)"
    for f :: "string \<Rightarrow> param" and cs
    by (induction cs) auto
  then show "c \<in> set (nonkey_columns r) \<Longrightarrow>
      column (expected_row r envelope item) c = expected_column r envelope item c"
    by (simp add: column_def expected_row_def)
qed

lemma payload_stmts_untargeted:
  assumes "\<forall>rec \<in> set recs. param_key kv (fst rec) \<noteq> Some k"
  shows "\<forall>q \<in> set (map (\<lambda>rec. INSERT r (expected_params r rec)) recs). \<not> targets kv q r k"
  using assms by (auto simp: key_of_expected)

lemma last_record_wins:
  assumes "r \<noteq> war_news"
    and "records data r = pre @ (kp, envelope, item) # post"
    and "param_key kv kp = Some k"
    and "\<forall>rec \<in> set post. param_key kv (fst rec) \<noteq> Some k"
  shows "effects kv (payload_stmts data r) r k v = Some (expected_row r envelope item)"
proof -
  let ?f = "\<lambda>rec. INSERT r (expected_params r rec)"
  have split: "payload_stmts data r = map ?f pre @ ?f (kp, envelope, item) # map ?f post"
    by (simp add: payload_stmts_def assms(2))
  have k: "key_of kv r (expected_params r (kp, envelope, item)) = Some k"
    using assms(3) by (simp add: key_of_expected)
  have post: "effects kv (map ?f post) r k w = w" for w
    by (rule effects_other) (rule payload_stmts_untargeted [OF assms(4)])
  have "effect kv (?f (kp, envelope, item)) r k w = Some (expected_row r envelope item)" for w
    using effect_upsert [OF assms(1) k] by (simp only: inserted_row_expected)
  then show ?thesis
    by (simp add: split effects_append post del: effect.simps)
qed

lemma absent_key_untouched:
  assumes "Some k \<notin> set (payload_keys kv data r)"
  shows "effects kv (payload_stmts data r) r k v = v"
proof -
  have "\<forall>rec \<in> set (records data r). param_key kv (fst rec) \<noteq> Some k"
    using assms by (force simp: payload_keys_def intro: rev_image_eqI)
  then show ?thesis
    unfolding payload_stmts_def
    by (intro effects_other payload_stmts_untargeted)
qed




section \<open>Rows a run does not touch\<close>

text \<open>A run that does not commit leaves the database as it was.\<close>

lemma uncommitted_store:
  assumes "ending (store_data eng db data) \<noteq> Committed"
  shows "store (store_data eng db data) = db"
proof (cases "connect eng db")
  case (Inl e)
  then show ?thesis
    by (simp add: store_data_def)
next
  case (Inr conn)
  then have c: "committed conn = db"
    by (rule connect_committed)
  obtain e s where p: "perform eng (try_block data) conn = (Some e, s)"
    using assms Inr
    by (cases "perform eng (try_block data) conn")
      (auto simp: store_data_def split: option.splits)
  then have "committed s = db"
    using try_block_raises_committed [of eng data conn e] c by simp
  then show ?thesis
    using Inr p by (auto simp: store_data_def rollback_def)
qed

lemma effect_news: "effect kv q war_news k (Some rw) = Some rw"
  by (cases q) simp_all

lemma effects_news: "effects kv qs war_news k (Some rw) = Some rw"
  by (induction qs) (simp_all add: effect_news del: effect.simps)

lemma effect_keeps: "v \<noteq> None \<Longrightarrow> effect kv q r k v \<noteq> None"
  by (cases q) (auto split: conflict.splits)

lemma effects_keeps: "v \<noteq> None \<Longrightarrow> effects kv qs r k v \<noteq> None"
proof (induction qs arbitrary: v)
  case Nil
  then show ?case by simp
next
  case (Cons q qs)
  have "effect kv q r k v \<noteq> None"
    using Cons.prems by (rule effect_keeps)
  then have "effects kv qs r k (effect kv q r k v) \<noteq> None"
    by (rule Cons.IH)
  then show ?case
    by (simp del: effect.simps)
qed

text \<open>
  C2. A row of \<open>war_news\<close> is never changed by a run of \<open>store_data\<close>: whatever the
  payload has under its id (another message, time, type or tag list) and whatever the
  engine does, the row stored under the id after the run is the row that was there,
  column for column.
\<close>

theorem war_news_rows_never_change:
  assumes "cell db war_news k = Some rw"
  shows "cell (store (store_data eng db data)) war_news k = Some rw"
proof (cases "ending (store_data eng db data) = Committed")
  case True
  then show ?thesis
    using committed_cell(1) [OF True, of war_news k] assms by (simp add: effects_news)
next
  case False
  then show ?thesis
    using assms by (simp add: uncommitted_store)
qed

text \<open>
  Item 42 is stored; the payload has item 42 with every field changed and a new item
  43. The run commits, item 43 is inserted, the row of item 42 is the one it was.
\<close>

theorem war_news_rows_never_change_witness:
  "cell one_news war_news 42 = Some news_row
   \<and> Some 42 \<in> set (payload_keys (key_value plain_engine) changed_news war_news)
   \<and> ending (store_data plain_engine one_news changed_news) = Committed
   \<and> cell (store (store_data plain_engine one_news changed_news)) war_news 43 \<noteq> None
   \<and> cell (store (store_data plain_engine one_news changed_news)) war_news 42 = Some news_row"
proof -
  have a: "cell one_news war_news 42 = Some news_row"
    by code_simp
  have b: "Some 42 \<in> set (payload_keys (key_value plain_engine) changed_news war_news)"
    by code_simp
  have c: "ending (store_data plain_engine one_news changed_news) = Committed"
    by code_simp
  have d: "cell (store (store_data plain_engine one_news changed_news)) war_news 43 \<noteq> None"
    by code_simp
  show ?thesis
    using a b c d war_news_rows_never_change [OF a, of plain_engine changed_news] by simp
qed

text \<open>
  C8. In every run and every relation, the row under a key that the payload of the run
  does not have is after the run what it was before (a row that was not there is still
  not there), and a row that was there before the run is there after it: no run deletes
  a row.
\<close>

theorem absent_rows_untouched:
  "(Some k \<notin> set (payload_keys (key_value eng) data r) \<longrightarrow>
      cell (store (store_data eng db data)) r k = cell db r k)
   \<and> (cell db r k \<noteq> None \<longrightarrow> cell (store (store_data eng db data)) r k \<noteq> None)"
proof (cases "ending (store_data eng db data) = Committed")
  case True
  then show ?thesis
    using committed_cell(1) [OF True, of r k]
    by (simp add: absent_key_untouched effects_keeps)
next
  case False
  then show ?thesis
    by (simp add: uncommitted_store)
qed

text \<open>
  The payload has planet 5 only: the row of planet 6 is unchanged by the committed run,
  and planet 5 still has a row.
\<close>

theorem absent_rows_untouched_witness:
  "Some 6 \<notin> set (payload_keys (key_value plain_engine) planet_5_status war_status)
   \<and> cell two_planets war_status 6 = Some (status_row 70)
   \<and> ending (store_data plain_engine two_planets planet_5_status) = Committed
   \<and> cell (store (store_data plain_engine two_planets planet_5_status)) war_status 6
       = Some (status_row 70)
   \<and> cell (store (store_data plain_engine two_planets planet_5_status)) war_status 5 \<noteq> None"
proof -
  have a: "Some 6 \<notin> set (payload_keys (key_value plain_engine) planet_5_status war_status)"
    by code_simp
  have b: "cell two_planets war_status 6 = Some (status_row 70)"
    by code_simp
  have c: "ending (store_data plain_engine two_planets planet_5_status) = Committed"
    by code_simp
  have d: "cell two_planets war_status 5 \<noteq> None"
    by code_simp
  show ?thesis
    using a b c d
      absent_rows_untouched [of 6 plain_engine planet_5_status war_status two_planets]
      absent_rows_untouched [of 5 plain_engine planet_5_status war_status two_planets]
    by simp
qed

section \<open>Running twice\<close>

lemma effect_constant:
  assumes "r \<noteq> war_news" and "targets kv q r k"
  shows "effect kv q r k v = effect kv q r k v'"
proof (cases q)
  case (CREATE_TABLE r')
  then show ?thesis
    using assms(2) by simp
next
  case (INSERT r' ps)
  then have "r' = r" and "key_of kv r ps = Some k"
    using assms(2) by auto
  then show ?thesis
    using effect_upsert [OF assms(1), of kv ps k] INSERT by (simp del: effect.simps)
qed

lemma effects_constant:
  assumes "r \<noteq> war_news" and "\<exists>q \<in> set qs. targets kv q r k"
  shows "effects kv qs r k v = effects kv qs r k v'"
  using assms(2)
proof (induction qs arbitrary: v v')
  case Nil
  then show ?case by simp
next
  case (Cons q qs)
  show ?case
  proof (cases "targets kv q r k")
    case True
    then have "effect kv q r k v = effect kv q r k v'"
      using assms(1) by (rule effect_constant [rotated])
    then show ?thesis
      by (simp del: effect.simps)
  next
    case False
    then have rest: "\<exists>q \<in> set qs. targets kv q r k"
      using Cons.prems by auto
    show ?thesis
      using Cons.IH [OF rest] False by (simp add: effect_other del: effect.simps)
  qed
qed

lemma effects_idem:
  "effects kv qs r k (effects kv qs r k v) = effects kv qs r k v"
proof (cases "r = war_news")
  case True
  show ?thesis
  proof (cases "effects kv qs r k v")
    case None
    then have "v = None"
      using effects_keeps [of v kv qs r k] by (cases v) simp_all
    then show ?thesis
      using None by simp
  next
    case (Some rw)
    then show ?thesis
      using True by (simp add: effects_news)
  qed
next
  case False
  show ?thesis
  proof (cases "\<exists>q \<in> set qs. targets kv q r k")
    case True
    then show ?thesis
      using False by (rule effects_constant [rotated])
  next
    case False
    then show ?thesis
      by (simp add: effects_other)
  qed
qed

lemma db_eqI:
  assumes "\<And>r. d r \<noteq> None" and "\<And>r. d' r \<noteq> None"
    and "\<And>r k. cell d r k = cell d' r k"
  shows "d = d'"
proof
  fix r
  obtain t t' where t: "d r = Some t" "d' r = Some t'"
    using assms(1) [of r] assms(2) [of r] by auto
  have "t k = t' k" for k
    using assms(3) [of r k] t by (simp add: cell_def)
  then have "t = t'"
    by (rule ext)
  then show "d r = d' r"
    using t by simp
qed

lemma second_run:
  assumes "ending (store_data eng db data) = Committed"
    and "key_value eng' = key_value eng"
  shows "store (store_data eng' (store (store_data eng db data)) data)
           = store (store_data eng db data)"
proof (cases "ending (store_data eng' (store (store_data eng db data)) data) = Committed")
  case True
  show ?thesis
  proof (rule db_eqI)
    show "store (store_data eng' (store (store_data eng db data)) data) r \<noteq> None" for r
      using True by (rule committed_cell(2))
    show "store (store_data eng db data) r \<noteq> None" for r
      using assms(1) by (rule committed_cell(2))
    show "cell (store (store_data eng' (store (store_data eng db data)) data)) r k
            = cell (store (store_data eng db data)) r k" for r k
      by (simp add: committed_cell(1) [OF True] committed_cell(1) [OF assms(1)] assms(2)
          effects_idem)
  qed
next
  case False
  then show ?thesis
    by (rule uncommitted_store)
qed

text \<open>
  C3. Running \<open>store_data\<close> a second time on the same payload leaves the database as
  the first run left it: no row more, no column changed, in any of the six relations.
  This holds with the engine behaving the second time as the first, and, once the first
  run has committed, with any behaviour of the engine the second time (a second run
  that fails rolls back to what the first run stored).
\<close>

theorem store_data_twice:
  "store (store_data eng (store (store_data eng db data)) data) = store (store_data eng db data)
   \<and> (ending (store_data eng db data) = Committed \<and> key_value eng' = key_value eng \<longrightarrow>
        store (store_data eng' (store (store_data eng db data)) data)
          = store (store_data eng db data))"
proof (cases "ending (store_data eng db data) = Committed")
  case True
  then show ?thesis
    using second_run [OF True] by simp
next
  case False
  then show ?thesis
    by (simp add: uncommitted_store)
qed

text \<open>
  On \<open>repeated_payload\<close> both runs commit; planet 5 has health 20 and item 42 its first
  message after the first run, and the second run changes nothing.
\<close>

theorem store_data_twice_witness:
  "ending (store_data plain_engine no_tables repeated_payload) = Committed
   \<and> key_value plain_engine = key_value plain_engine
   \<and> stored_column (store (store_data plain_engine no_tables repeated_payload))
        war_status 5 ''health'' = Some (Py (JInt 20))
   \<and> stored_column (store (store_data plain_engine no_tables repeated_payload))
        war_news 42 ''message'' = Some (Py (JStr ''a''))
   \<and> ending (store_data plain_engine
                 (store (store_data plain_engine no_tables repeated_payload)) repeated_payload)
       = Committed
   \<and> store (store_data plain_engine
                (store (store_data plain_engine no_tables repeated_payload)) repeated_payload)
       = store (store_data plain_engine no_tables repeated_payload)"
proof -
  have a: "ending (store_data plain_engine no_tables repeated_payload) = Committed"
    by code_simp
  have b: "stored_column (store (store_data plain_engine no_tables repeated_payload))
             war_status 5 ''health'' = Some (Py (JInt 20))"
    by code_simp
  have c: "stored_column (store (store_data plain_engine no_tables repeated_payload))
             war_news 42 ''message'' = Some (Py (JStr ''a''))"
    by code_simp
  have d: "ending (store_data plain_engine
                     (store (store_data plain_engine no_tables repeated_payload))
                     repeated_payload) = Committed"
    by code_simp
  show ?thesis
    using a b c d store_data_twice [of plain_engine no_tables repeated_payload plain_engine]
    by simp
qed

section \<open>Absent fields\<close>

lemma optional_absent:
  assumes "(c, p) \<in> set (optional_fields r)" and "c \<noteq> primary_key r"
    and "lookup_path item p = None"
  shows "expected_column r envelope item c = Py JNull \<and> c \<in> set (nonkey_columns r)"
proof -
  have "\<forall>cp \<in> set (optional_fields r).
          fst cp \<noteq> primary_key r \<longrightarrow> lookup_path item (snd cp) = None \<longrightarrow>
          expected_column r envelope item (fst cp) = Py JNull
          \<and> fst cp \<in> set (nonkey_columns r)"
    by (cases r) (simp_all add: expected_column_def field_def nonkey_columns_def)
  from this assms(1) have "fst (c, p) \<noteq> primary_key r \<longrightarrow> lookup_path item (snd (c, p)) = None \<longrightarrow>
          expected_column r envelope item (fst (c, p)) = Py JNull
          \<and> fst (c, p) \<in> set (nonkey_columns r)"
    by (rule bspec)
  then show ?thesis
    using assms(2,3) by simp
qed

lemma envelope_absent:
  assumes "(c, f) \<in> set (envelope_fields r)" and "lookup_path envelope [f] = None"
  shows "expected_column r envelope item c = Py JNull \<and> c \<in> set (nonkey_columns r)"
proof -
  have "\<forall>cf \<in> set (envelope_fields r).
          lookup_path envelope [snd cf] = None \<longrightarrow>
          expected_column r envelope item (fst cf) = Py JNull
          \<and> fst cf \<in> set (nonkey_columns r)"
    by (cases r)
      (simp_all add: expected_column_def field_def nonkey_columns_def del: lookup_path.simps)
  from this assms(1) have "lookup_path envelope [snd (c, f)] = None \<longrightarrow>
          expected_column r envelope item (fst (c, f)) = Py JNull
          \<and> fst (c, f) \<in> set (nonkey_columns r)"
    by (rule bspec)
  then show ?thesis
    using assms(2) by simp
qed

lemma default_columns:
  "lookup_path item [''waypoints''] = None \<Longrightarrow>
     expected_column war_info envelope item ''waypoints'' = Py (JArr [])"
  "lookup_path item [''environmentals''] = None \<Longrightarrow>
     expected_column planets envelope item ''environmentals'' = Dumps (JArr [])"
  "lookup_path item [''setting'', ''tasks''] = None \<Longrightarrow>
     expected_column war_major_orders envelope item ''setting_tasks'' = Dumps JNull"
  "''waypoints'' \<in> set (nonkey_columns war_info)"
  "''environmentals'' \<in> set (nonkey_columns planets)"
  "''setting_tasks'' \<in> set (nonkey_columns war_major_orders)"
  by (simp_all add: expected_column_def field_def field_or_def nonkey_columns_def
      del: lookup_path.simps)


lemma first_news_wins:
  assumes "records data war_news = pre @ (kp, envelope, item) # post"
    and "param_key kv kp = Some k"
    and "\<forall>rec \<in> set pre. param_key kv (fst rec) \<noteq> Some k"
  shows "effects kv (payload_stmts data war_news) war_news k None
           = Some (expected_row war_news envelope item)"
proof -
  let ?f = "\<lambda>rec. INSERT war_news (expected_params war_news rec)"
  have split: "payload_stmts data war_news
                 = map ?f pre @ ?f (kp, envelope, item) # map ?f post"
    unfolding payload_stmts_def assms(1) by simp
  have k: "key_of kv war_news (expected_params war_news (kp, envelope, item)) = Some k"
    using assms(2) by (simp add: key_of_expected)
  have pre: "effects kv (map ?f pre) war_news k None = None"
    by (rule effects_other) (rule payload_stmts_untargeted [OF assms(3)])
  have "effect kv (?f (kp, envelope, item)) war_news k None
          = Some (expected_row war_news envelope item)"
    using k by (simp add: inserted_row_expected)
  then show ?thesis
    by (simp add: split effects_append pre effects_news del: effect.simps)
qed

lemma record_stored:
  assumes "ending (store_data eng db data) = Committed"
    and "records data r = pre @ (kp, envelope, item) # post"
    and "param_key (key_value eng) kp = Some k"
    and "if r = war_news
         then cell db r k = None
              \<and> (\<forall>rec \<in> set pre. param_key (key_value eng) (fst rec) \<noteq> Some k)
         else (\<forall>rec \<in> set post. param_key (key_value eng) (fst rec) \<noteq> Some k)"
  shows "cell (store (store_data eng db data)) r k = Some (expected_row r envelope item)"
proof (cases "r = war_news")
  case True
  then show ?thesis
    using committed_cell(1) [OF assms(1), of r k] assms(2-4)
    by (simp add: first_news_wins)
next
  case False
  then have "\<forall>rec \<in> set post. param_key (key_value eng) (fst rec) \<noteq> Some k"
    using assms(4) by simp
  then show ?thesis
    using committed_cell(1) [OF assms(1), of r k] last_record_wins [OF False assms(2,3)]
    by simp
qed

text \<open>
  C6, as stated, fails for the list-valued fields it names: a planet info record with
  no \<open>waypoints\<close> is stored with the empty list in that column, and a planet with no
  \<open>environmentals\<close> with the JSON text of the empty list, not with null.
\<close>

theorem absent_list_fields_are_not_null:
  "ending (store_data plain_engine no_tables bare_info) = Committed
   \<and> lookup_path bare_info_record [''waypoints''] = None
   \<and> stored_column (store (store_data plain_engine no_tables bare_info))
        war_info 1 ''waypoints'' = Some (Py (JArr []))
   \<and> ending (store_data plain_engine no_tables bare_planets) = Committed
   \<and> stored_column (store (store_data plain_engine no_tables bare_planets))
        planets 7 ''environmentals'' = Some (Dumps (JArr []))"
  by code_simp

text \<open>
  C6, amended. In a run that commits, take a record of the payload whose row is the one
  stored under its key afterwards (the last record with that key; for \<open>war_news\<close> the
  first, under a key that had no row). Every optional field of the record that is
  absent, and every field absent from the envelope of its resource, is stored in its
  column as null, with no default in its place; so \<open>position_x\<close> and \<open>position_y\<close> are
  null for a planet info record with no \<open>position\<close>, whose parameters are built
  without raising. The three columns with a default in the code are stored with it:
  absent \<open>waypoints\<close> as the empty list, absent \<open>environmentals\<close> as the JSON text of
  the empty list, an absent task list as the JSON text \<open>null\<close>.
\<close>

theorem absent_fields_stored:
  assumes "ending (store_data eng db data) = Committed"
    and "records data r = pre @ (kp, envelope, item) # post"
    and "param_key (key_value eng) kp = Some k"
    and "if r = war_news
         then cell db r k = None
              \<and> (\<forall>rec \<in> set pre. param_key (key_value eng) (fst rec) \<noteq> Some k)
         else (\<forall>rec \<in> set post. param_key (key_value eng) (fst rec) \<noteq> Some k)"
  shows "(\<forall>c p. (c, p) \<in> set (optional_fields r) \<and> c \<noteq> primary_key r
                \<and> lookup_path item p = None \<longrightarrow>
            stored_column (store (store_data eng db data)) r k c = Some (Py JNull))
         \<and> (\<forall>c f. (c, f) \<in> set (envelope_fields r) \<and> lookup_path envelope [f] = None \<longrightarrow>
            stored_column (store (store_data eng db data)) r k c = Some (Py JNull))
         \<and> (r = war_info \<and> lookup_path item [''waypoints''] = None \<longrightarrow>
            stored_column (store (store_data eng db data)) r k ''waypoints''
              = Some (Py (JArr [])))
         \<and> (r = planets \<and> lookup_path item [''environmentals''] = None \<longrightarrow>
            stored_column (store (store_data eng db data)) r k ''environmentals''
              = Some (Dumps (JArr [])))
         \<and> (r = war_major_orders \<and> lookup_path item [''setting'', ''tasks''] = None \<longrightarrow>
            stored_column (store (store_data eng db data)) r k ''setting_tasks''
              = Some (Dumps JNull))
         \<and> (\<forall>hdr d. map_of d ''position'' = None \<longrightarrow>
              (\<exists>ps. info_params hdr (JObj d) = Inr ps
                    \<and> excluded war_info ps ''position_x'' = Py JNull
                    \<and> excluded war_info ps ''position_y'' = Py JNull))"
proof -
  have row: "cell (store (store_data eng db data)) r k = Some (expected_row r envelope item)"
    using assms by (rule record_stored)
  have col: "stored_column (store (store_data eng db data)) r k c
               = Some (expected_column r envelope item c)"
    if "c \<in> set (nonkey_columns r)" for c
    using row that by (simp add: stored_column_def column_expected_row)
  have opt: "\<forall>c p. (c, p) \<in> set (optional_fields r) \<and> c \<noteq> primary_key r
                \<and> lookup_path item p = None \<longrightarrow>
            stored_column (store (store_data eng db data)) r k c = Some (Py JNull)"
    using optional_absent [of _ _ r item envelope] col by metis
  have env: "\<forall>c f. (c, f) \<in> set (envelope_fields r) \<and> lookup_path envelope [f] = None \<longrightarrow>
            stored_column (store (store_data eng db data)) r k c = Some (Py JNull)"
    using envelope_absent [of _ _ r envelope item] col by metis
  have way: "r = war_info \<and> lookup_path item [''waypoints''] = None \<longrightarrow>
            stored_column (store (store_data eng db data)) r k ''waypoints''
              = Some (Py (JArr []))"
    using col [of "''waypoints''"] default_columns(1,4) by auto
  have envs: "r = planets \<and> lookup_path item [''environmentals''] = None \<longrightarrow>
            stored_column (store (store_data eng db data)) r k ''environmentals''
              = Some (Dumps (JArr []))"
    using col [of "''environmentals''"] default_columns(2,5) by auto
  have tasks: "r = war_major_orders \<and> lookup_path item [''setting'', ''tasks''] = None \<longrightarrow>
            stored_column (store (store_data eng db data)) r k ''setting_tasks''
              = Some (Dumps JNull)"
    using col [of "''setting_tasks''"] default_columns(3,6) by auto
  have pos: "\<forall>hdr d. map_of d ''position'' = None \<longrightarrow>
              (\<exists>ps. info_params hdr (JObj d) = Inr ps
                    \<and> excluded war_info ps ''position_x'' = Py JNull
                    \<and> excluded war_info ps ''position_y'' = Py JNull)"
    by (simp add: info_params_def get_or_def get_def excluded_def)
  show ?thesis
    using opt env way envs tasks pos by blast
qed

text \<open>
  The planet info record that has an index and nothing else: its position columns and
  the columns of the envelope are null, its \<open>waypoints\<close> the empty list.
\<close>

theorem absent_fields_stored_witness:
  "ending (store_data plain_engine no_tables bare_info) = Committed
   \<and> records bare_info war_info
       = [] @ (Py (JInt 1), bare_info_envelope, bare_info_record) # []
   \<and> param_key (key_value plain_engine) (Py (JInt 1)) = Some 1
   \<and> lookup_path bare_info_record [''position'', ''x''] = None
   \<and> lookup_path bare_info_envelope [''warId''] = None
   \<and> lookup_path bare_info_record [''waypoints''] = None
   \<and> stored_column (store (store_data plain_engine no_tables bare_info))
        war_info 1 ''position_x'' = Some (Py JNull)
   \<and> stored_column (store (store_data plain_engine no_tables bare_info))
        war_info 1 ''warId'' = Some (Py JNull)
   \<and> stored_column (store (store_data plain_engine no_tables bare_info))
        war_info 1 ''waypoints'' = Some (Py (JArr []))"
proof -
  have a: "ending (store_data plain_engine no_tables bare_info) = Committed"
    by code_simp
  have b: "records bare_info war_info
             = [] @ (Py (JInt 1), bare_info_envelope, bare_info_record) # []"
    by code_simp
  have c: "param_key (key_value plain_engine) (Py (JInt 1)) = Some 1"
    by code_simp
  have d: "if war_info = war_news
           then cell no_tables war_info 1 = None
                \<and> (\<forall>rec \<in> set []. param_key (key_value plain_engine) (fst rec) \<noteq> Some 1)
           else (\<forall>rec \<in> set []. param_key (key_value plain_engine) (fst rec) \<noteq> Some 1)"
    by simp
  have x: "(''position_x'', [''position'', ''x'']) \<in> set (optional_fields war_info)
           \<and> ''position_x'' \<noteq> primary_key war_info
           \<and> lookup_path bare_info_record [''position'', ''x''] = None"
    by code_simp
  have w: "(''warId'', ''warId'') \<in> set (envelope_fields war_info)
           \<and> lookup_path bare_info_envelope [''warId''] = None"
    by code_simp
  have l: "lookup_path bare_info_record [''waypoints''] = None"
    by code_simp
  note t = absent_fields_stored [OF a b c d]
  have px: "stored_column (store (store_data plain_engine no_tables bare_info))
              war_info 1 ''position_x'' = Some (Py JNull)"
    using t x by blast
  have wi: "stored_column (store (store_data plain_engine no_tables bare_info))
              war_info 1 ''warId'' = Some (Py JNull)"
    using t w by blast
  have wp: "stored_column (store (store_data plain_engine no_tables bare_info))
              war_info 1 ''waypoints'' = Some (Py (JArr []))"
    using t l by blast
  show ?thesis
    using a b c x w l px wi wp by blast
qed

section \<open>Failed fetches\<close>

















end
